theory Spec2Isabelle
  imports Complex_Main "HOL-Library.Multiset" "HOL-Library.Product_Lexorder"
begin

unbundle bit_operations_syntax

section \<open>Numbers, calendar dates and the JavaScript Date operations used by the engine\<close>

text \<open>
  Amounts are JavaScript numbers in the source. They are embedded as exact rationals:
  every statement below is about the arithmetic the code writes down, without the
  rounding of binary floating point.
\<close>

type_synonym money = rat

text \<open>
  The remainder operator \<^verbatim>\<open>%\<close> of JavaScript takes the sign of the dividend;
  \<^verbatim>\<open>Math.floor(a / b)\<close> for a positive \<open>b\<close> is \<open>a div b\<close>.
\<close>

definition js_rem :: "int \<Rightarrow> int \<Rightarrow> int" where
  "js_rem a b = (if 0 \<le> a then a mod \<bar>b\<bar> else - ((- a) mod \<bar>b\<bar>))"

text \<open>
  A \<^verbatim>\<open>Date\<close> is used by the source only through its local calendar fields
  (\<^verbatim>\<open>getFullYear\<close>, \<^verbatim>\<open>getMonth\<close>, \<^verbatim>\<open>getDate\<close>, \<^verbatim>\<open>getDay\<close>),
  the constructor \<^verbatim>\<open>new Date(y, m, d)\<close>, \<^verbatim>\<open>setDate\<close> and comparison. It is
  embedded as those fields: a year, a month index 0..11 and a day of the month, with no
  time of day and no time zone.
\<close>

datatype jsDate = JsDate (getFullYear: int) (getMonth: int) (getDate: int)

text \<open>
  An ISO date string \<^verbatim>\<open>YYYY-MM-DD\<close> is embedded as its three numeric fields (month
  1..12). The substring and \<^verbatim>\<open>parseInt\<close> of the engine that read the month back
  are the projection \<open>isoMonth\<close>; this is what they compute for four-digit years, the only
  ones the engine's input validation lets through.
\<close>

datatype DateISO = DateISO (isoYear: int) (isoMonth: int) (isoDay: int)

definition isoKey :: "DateISO \<Rightarrow> int \<times> int \<times> int" where
  "isoKey d = (isoYear d, isoMonth d, isoDay d)"

definition isLeapYear :: "int \<Rightarrow> bool" where
  "isLeapYear y = (y mod 4 = 0 \<and> (y mod 100 \<noteq> 0 \<or> y mod 400 = 0))"

definition daysInMonth :: "int \<Rightarrow> int \<Rightarrow> int" where
  "daysInMonth y m =
     (if m = 1 then (if isLeapYear y then 29 else 28)
      else if m = 3 \<or> m = 5 \<or> m = 8 \<or> m = 10 then 30 else 31)"

fun nextDay :: "jsDate \<Rightarrow> jsDate" where
  "nextDay (JsDate y m d) =
     (if d < daysInMonth y m then JsDate y m (d + 1)
      else if m < 11 then JsDate y (m + 1) 1
      else JsDate (y + 1) 0 1)"

fun prevDay :: "jsDate \<Rightarrow> jsDate" where
  "prevDay (JsDate y m d) =
     (if 1 < d then JsDate y m (d - 1)
      else if 0 < m then JsDate y (m - 1) (daysInMonth y (m - 1))
      else JsDate (y - 1) 11 31)"

definition plusDays :: "jsDate \<Rightarrow> int \<Rightarrow> jsDate" where
  "plusDays dt k = (if 0 \<le> k then (nextDay ^^ nat k) dt else (prevDay ^^ nat (- k)) dt)"

text \<open>
  \<^verbatim>\<open>new Date(year, monthIndex, day)\<close>: years 0..99 mean 1900..1999, a month index
  outside 0..11 carries into the year, and the day counts from the first of that month.
\<close>

definition newDate :: "int \<Rightarrow> int \<Rightarrow> int \<Rightarrow> jsDate" where
  "newDate year monthIndex day =
     (let y0 = (if 0 \<le> year \<and> year \<le> 99 then 1900 + year else year)
      in plusDays (JsDate (y0 + monthIndex div 12) (monthIndex mod 12) 1) (day - 1))"

text \<open>Days since 1970-01-01 of a calendar date (month 1..12), for the day of the week.\<close>

definition daysFromCivil :: "int \<Rightarrow> int \<Rightarrow> int \<Rightarrow> int" where
  "daysFromCivil y0 m d =
     (let y = (if m \<le> 2 then y0 - 1 else y0);
          era = y div 400;
          yoe = y - era * 400;
          doy = (153 * (if 2 < m then m - 3 else m + 9) + 2) div 5 + d - 1;
          doe = yoe * 365 + yoe div 4 - yoe div 100 + doy
      in era * 146097 + doe - 719468)"

text \<open>\<^verbatim>\<open>getDay\<close>: 0 is Sunday, 6 is Saturday; 1970-01-01 was a Thursday.\<close>

definition getDay :: "jsDate \<Rightarrow> int" where
  "getDay dt = (daysFromCivil (getFullYear dt) (getMonth dt + 1) (getDate dt) + 4) mod 7"

definition date_le :: "jsDate \<Rightarrow> jsDate \<Rightarrow> bool" where
  "date_le a b = ((getFullYear a, getMonth a, getDate a) \<le> (getFullYear b, getMonth b, getDate b))"

definition addDays :: "jsDate \<Rightarrow> int \<Rightarrow> jsDate" where
  "addDays date days = plusDays date days"

definition formatDateISO :: "jsDate \<Rightarrow> DateISO" where
  "formatDateISO date = DateISO (getFullYear date) (getMonth date + 1) (getDate date)"

text \<open>
  \<^verbatim>\<open>new Date("YYYY-MM-DD")\<close> of a calendar date, read back through the local
  getters (no time zone offset).
\<close>

definition parseDate :: "DateISO \<Rightarrow> jsDate" where
  "parseDate s = JsDate (isoYear s) (isoMonth s - 1) (isoDay s)"

section \<open>French holidays\<close>

definition getEasterSunday :: "int \<Rightarrow> jsDate" where
  "getEasterSunday year =
     (let a = js_rem year 19;
          b = year div 100;
          c = js_rem year 100;
          d = b div 4;
          e = js_rem b 4;
          f = (b + 8) div 25;
          g = (b - f + 1) div 3;
          h = js_rem (19 * a + b - d - g + 15) 30;
          i = c div 4;
          k = js_rem c 4;
          l = js_rem (32 + 2 * e + 2 * i - h - k) 7;
          m = (a + 11 * h + 22 * l) div 451;
          n = (h + l - 7 * m + 114) div 31;
          p = js_rem (h + l - 7 * m + 114) 31
      in newDate year (n - 1) (p + 1))"

definition fixedHolidays :: "int \<Rightarrow> DateISO list" where
  "fixedHolidays year =
     [DateISO year 1 1, DateISO year 5 1, DateISO year 5 8, DateISO year 7 14,
      DateISO year 8 15, DateISO year 11 1, DateISO year 11 11, DateISO year 12 25]"

definition easterBasedHolidays :: "int list" where
  "easterBasedHolidays = [1, 39, 50]"

definition getFrenchHolidays :: "int \<Rightarrow> string \<Rightarrow> DateISO set" where
  "getFrenchHolidays year region =
     (let easter = getEasterSunday year;
          holidays = set (fixedHolidays year);
          holidays = holidays \<union>
            set (map (\<lambda>offset. formatDateISO (addDays easter offset)) easterBasedHolidays)
      in if region = ''FR-67'' \<or> region = ''FR-68'' \<or> region = ''FR-57''
         then insert (DateISO year 12 26)
                (insert (formatDateISO (addDays easter (- 2))) holidays)
         else holidays)"

section \<open>Patterns, occurrences and postings\<close>

datatype Account = Operating | Savings | Personal | Vat

record AccountPosting =
  account :: Account
  amount :: money
  description :: string

datatype occType = Revenue | Expense

record DayOffOverride =
  ov_date :: DateISO
  ov_active :: bool
  ov_reason :: "string option"

text \<open>
  A row of \<^verbatim>\<open>revenue_patterns\<close> has the column \<^verbatim>\<open>vatRate\<close> (a decimal string or
  null); a row of \<^verbatim>\<open>expense_patterns\<close> has \<^verbatim>\<open>category\<close> and
  \<^verbatim>\<open>vatDeductible\<close> (an integer or null) instead. The source tells them apart by
  \<^verbatim>\<open>'vatRate' in pattern\<close>. Decimal strings are embedded as the number they denote.
\<close>

datatype patternKind =
    RevenuePattern (vatRate: "rat option")
  | ExpensePattern (category: string) (vatDeductible: "int option")

record Pattern =
  pat_id :: string
  pat_name :: string
  pat_amount :: rat
  pat_frequency :: string
  startMonth :: int
  pat_isRecurring :: "int option"
  excludeWeekends :: "int option"
  excludeHolidays :: "int option"
  daysMask :: "int option"
  dayOffOverrides :: "DayOffOverride list option"
  startDate :: "DateISO option"
  pat_kind :: patternKind

record Company =
  co_id :: string
  co_userId :: string
  co_name :: string
  co_legalForm :: string
  co_activitySector :: string
  co_capital :: "int option"
  co_bankPartner :: string
  co_fiscalYear :: "string option"
  co_holidayRegion :: string

record Occurrence =
  occ_id :: "string \<times> DateISO"
  occ_patternId :: string
  occ_patternName :: string
  occ_date :: DateISO
  occ_type :: occType
  occ_category :: "string option"
  grossAmount :: money
  occ_vatRate :: rat
  vatAmount :: money
  netAmount :: money
  occ_vatDeductible :: "bool option"
  accountPostings :: "AccountPosting list"
  occ_frequency :: string
  occ_isRecurring :: bool

text \<open>Truthiness of a nullable integer column (\<^verbatim>\<open>Boolean(x)\<close>, \<^verbatim>\<open>if (x)\<close>).\<close>

fun truthy :: "int option \<Rightarrow> bool" where
  "truthy None = False"
| "truthy (Some n) = (n \<noteq> 0)"

definition generateOccurrenceId :: "string \<Rightarrow> DateISO \<Rightarrow> string \<times> DateISO" where
  "generateOccurrenceId patternId date = (patternId, date)"

definition calculateVAT :: "money \<Rightarrow> rat \<Rightarrow> money \<times> money" where
  "calculateVAT gross rate =
     (let vatAmt = gross * rate / (1 + rate);
          netAmt = gross - vatAmt
      in (vatAmt, netAmt))"

definition generateRevenuePostings :: "Occurrence \<Rightarrow> AccountPosting list" where
  "generateRevenuePostings occurrence =
     [\<lparr>account = Operating, amount = netAmount occurrence,
        description = ''Revenue: '' @ occ_patternName occurrence\<rparr>,
      \<lparr>account = Vat, amount = vatAmount occurrence,
        description = ''VAT on revenue: '' @ occ_patternName occurrence\<rparr>]"

definition generateExpensePostings :: "Occurrence \<Rightarrow> AccountPosting list" where
  "generateExpensePostings occurrence =
     (let postings =
            [\<lparr>account = Operating, amount = - netAmount occurrence,
               description = ''Expense: '' @ occ_patternName occurrence\<rparr>]
      in if occ_vatDeductible occurrence = Some True \<and> 0 < vatAmount occurrence
         then postings @
            [\<lparr>account = Vat, amount = - vatAmount occurrence,
               description = ''Deductible VAT: '' @ occ_patternName occurrence\<rparr>]
         else postings)"

definition createOccurrence :: "Pattern \<Rightarrow> Company \<Rightarrow> jsDate \<Rightarrow> Occurrence" where
  "createOccurrence pattern company date =
     (let gross = pat_amount pattern;
          rate = (case pat_kind pattern of
                    RevenuePattern (Some r) \<Rightarrow> r / 100
                  | _ \<Rightarrow> 20 / 100);
          (vatAmt, netAmt) = calculateVAT gross rate;
          occurrence =
            \<lparr>occ_id = generateOccurrenceId (pat_id pattern) (formatDateISO date),
             occ_patternId = pat_id pattern,
             occ_patternName = pat_name pattern,
             occ_date = formatDateISO date,
             occ_type = (case pat_kind pattern of RevenuePattern _ \<Rightarrow> Revenue
                         | ExpensePattern _ _ \<Rightarrow> Expense),
             occ_category = (case pat_kind pattern of RevenuePattern _ \<Rightarrow> None
                             | ExpensePattern c _ \<Rightarrow> Some c),
             grossAmount = gross,
             occ_vatRate = rate,
             vatAmount = vatAmt,
             netAmount = netAmt,
             occ_vatDeductible = (case pat_kind pattern of RevenuePattern _ \<Rightarrow> None
                                  | ExpensePattern _ vd \<Rightarrow> Some (truthy vd)),
             accountPostings = [],
             occ_frequency = pat_frequency pattern,
             occ_isRecurring = truthy (pat_isRecurring pattern)\<rparr>
      in if occ_type occurrence = Revenue
         then occurrence\<lparr>accountPostings := generateRevenuePostings occurrence\<rparr>
         else occurrence\<lparr>accountPostings := generateExpensePostings occurrence\<rparr>)"

definition isDateActive :: "jsDate \<Rightarrow> Pattern \<Rightarrow> DateISO set \<Rightarrow> bool" where
  "isDateActive date pattern holidays =
     (let dateStr = formatDateISO date;
          dayOfWeek = getDay date
      in case (case dayOffOverrides pattern of
                 None \<Rightarrow> None
               | Some overrides \<Rightarrow> find (\<lambda>ov. ov_date ov = dateStr) overrides) of
           Some override \<Rightarrow> ov_active override
         | None \<Rightarrow>
            (let isActive = (case daysMask pattern of
                               Some dm \<Rightarrow> (dm AND push_bit (nat dayOfWeek) 1) \<noteq> 0
                             | None \<Rightarrow> True);
                 isActive = (if isActive \<and> truthy (excludeWeekends pattern)
                             then (if dayOfWeek = 0 \<or> dayOfWeek = 6 then False else isActive)
                             else isActive);
                 isActive = (if isActive \<and> truthy (excludeHolidays pattern)
                             then (if dateStr \<in> holidays then False else isActive)
                             else isActive)
             in isActive))"

definition getFirstDayOfMonth :: "int \<Rightarrow> int \<Rightarrow> jsDate" where
  "getFirstDayOfMonth year month = newDate year (month - 1) 1"

text \<open>The \<^verbatim>\<open>while (currentDate <= endDate)\<close> loop of \<^verbatim>\<open>expandDailyPattern\<close>.\<close>

function dailyLoop :: "Pattern \<Rightarrow> Company \<Rightarrow> DateISO set \<Rightarrow> jsDate \<Rightarrow> jsDate \<Rightarrow> Occurrence list" where
  "dailyLoop pattern company holidays currentDate endDate =
     (if date_le currentDate endDate
      then (if isDateActive currentDate pattern holidays
            then [createOccurrence pattern company currentDate] else [])
           @ dailyLoop pattern company holidays (nextDay currentDate) endDate
      else [])"
  by pat_completeness auto
termination
proof (relation "measures
    [\<lambda>(p, c, h, cur, e). nat (getFullYear e - getFullYear cur + 1),
     \<lambda>(p, c, h, cur, e). nat (12 - getMonth cur),
     \<lambda>(p, c, h, cur, e). nat (32 - getDate cur)]", goal_cases)
  case 1
  show ?case by simp
next
  case (2 pattern company holidays currentDate endDate)
  obtain y m d where cur: "currentDate = JsDate y m d" by (cases currentDate)
  obtain y' m' d' where en: "endDate = JsDate y' m' d'" by (cases endDate)
  have dim: "daysInMonth y m \<le> 31" by (simp add: daysInMonth_def)
  from 2 have le: "y \<le> y'" by (auto simp: date_le_def cur en less_eq_prod_def)
  show ?case using le dim by (auto simp: cur en)
qed

declare dailyLoop.simps [simp del]

definition expandDailyPattern :: "Pattern \<Rightarrow> Company \<Rightarrow> int \<Rightarrow> DateISO set \<Rightarrow> Occurrence list" where
  "expandDailyPattern pattern company year holidays =
     (let start0 = (case startDate pattern of
                      Some s \<Rightarrow> parseDate s
                    | None \<Rightarrow> getFirstDayOfMonth year (startMonth pattern));
          endDate = newDate year 11 31;
          start1 = (if getFullYear start0 < year then newDate year 0 1 else start0)
      in if year < getFullYear start1 then []
         else dailyLoop pattern company holidays start1 endDate)"

definition expandMonthlyPattern :: "Pattern \<Rightarrow> Company \<Rightarrow> int \<Rightarrow> Occurrence list" where
  "expandMonthlyPattern pattern company year =
     map (\<lambda>month. createOccurrence pattern company (getFirstDayOfMonth year month))
       [startMonth pattern .. 12]"

text \<open>\<^verbatim>\<open>Math.ceil(startMonth / 3)\<close> on an integer is \<open>- ((- startMonth) div 3)\<close>.\<close>

definition expandQuarterlyPattern :: "Pattern \<Rightarrow> Company \<Rightarrow> int \<Rightarrow> Occurrence list" where
  "expandQuarterlyPattern pattern company year =
     (let startQuarter = - ((- startMonth pattern) div 3)
      in map (\<lambda>quarter. createOccurrence pattern company
                (getFirstDayOfMonth year ((quarter - 1) * 3 + 1)))
           [startQuarter .. 4])"

definition expandYearlyPattern :: "Pattern \<Rightarrow> Company \<Rightarrow> int \<Rightarrow> Occurrence list" where
  "expandYearlyPattern pattern company year =
     [createOccurrence pattern company (getFirstDayOfMonth year (startMonth pattern))]"

definition expandPattern :: "Pattern \<Rightarrow> Company \<Rightarrow> int \<Rightarrow> Occurrence list" where
  "expandPattern pattern company year =
     (let holidayRegion = (if co_holidayRegion company = [] then ''FR''
                           else co_holidayRegion company);
          holidays = getFrenchHolidays year holidayRegion
      in if pat_frequency pattern = ''daily''
           then expandDailyPattern pattern company year holidays
         else if pat_frequency pattern = ''monthly''
           then expandMonthlyPattern pattern company year
         else if pat_frequency pattern = ''quarterly''
           then expandQuarterlyPattern pattern company year
         else if pat_frequency pattern = ''yearly''
           then expandYearlyPattern pattern company year
         else [])"

text \<open>
  The final sort compares the ISO strings with \<^verbatim>\<open>localeCompare\<close>; on dates of
  four-digit years that is the order of (year, month, day). The sort is stable.
\<close>

definition expandAllPatterns :: "Pattern list \<Rightarrow> Pattern list \<Rightarrow> Company \<Rightarrow> int \<Rightarrow> Occurrence list" where
  "expandAllPatterns revenuePatterns expensePatterns company year =
     (let allOccurrences =
            concat (map (\<lambda>pattern. expandPattern pattern company year) revenuePatterns)
            @ concat (map (\<lambda>pattern. expandPattern pattern company year) expensePatterns)
      in sort_key (\<lambda>occ. isoKey (occ_date occ)) allOccurrences)"


section \<open>The ledger: monthly buckets per account\<close>

record TransactionRecord =
  tx_id :: "(string \<times> DateISO) \<times> Account"
  tx_date :: DateISO
  tx_description :: string
  tx_amount :: money
  tx_sourceOccurrenceId :: "string \<times> DateISO"
  tx_patternName :: string
  tx_type :: occType
  tx_category :: "string option"

record Summary =
  totalDebits :: money
  totalCredits :: money
  netChange :: money

record MonthlyAccountBalance =
  mb_account :: Account
  mb_month :: int
  openingBalance :: money
  transactions :: "TransactionRecord list"
  closingBalance :: money
  summary :: Summary

text \<open>
  The \<^verbatim>\<open>Map<Account, MonthlyAccountBalance[]>\<close> always holds the four accounts, inserted
  in the order of \<open>accounts\<close>; it is embedded as a function from accounts to arrays.
\<close>

type_synonym balanceMap = "Account \<Rightarrow> MonthlyAccountBalance list"

definition accounts :: "Account list" where
  "accounts = [Operating, Savings, Personal, Vat]"

text \<open>
  Reading \<^verbatim>\<open>xs[i]\<close> gives \<^verbatim>\<open>undefined\<close> outside the array, and reading a property
  of \<^verbatim>\<open>undefined\<close> throws a TypeError.
\<close>

datatype invariantError =
    FiscalStartOpeningMismatch Account money money
  | FinalBalanceInvariantFailed Account money money money
  | RollForwardInvariantFailed Account int int money money money
  | ClosingBalanceCalculationError Account int money money money
  | VatCollectedMismatch money money money
  | VatDeductibleMismatch money money money
  | NetVatCalculationError money money money

datatype failure = TypeError string | InvariantViolation "invariantError list"

definition arrayGet :: "'a list \<Rightarrow> int \<Rightarrow> 'a option" where
  "arrayGet xs i = (if 0 \<le> i \<and> i < int (length xs) then Some (xs ! nat i) else None)"

definition getFiscalMonthOrder :: "int \<Rightarrow> int list" where
  "getFiscalMonthOrder fiscalStartMonth =
     map (\<lambda>i. js_rem (fiscalStartMonth + i - 1) 12 + 1) [0 .. 11]"

definition calendarToFiscalMonth :: "int \<Rightarrow> int \<Rightarrow> int" where
  "calendarToFiscalMonth calendarMonth fiscalStartMonth =
     js_rem (calendarMonth - fiscalStartMonth + 12) 12 + 1"

definition zeroSummary :: Summary where
  "zeroSummary = \<lparr>totalDebits = 0, totalCredits = 0, netChange = 0\<rparr>"

definition createInitialBalances :: "(Account \<Rightarrow> money) \<Rightarrow> int \<Rightarrow> balanceMap" where
  "createInitialBalances starting fiscalStartMonth =
     (\<lambda>acct. map (\<lambda>month.
        if month = fiscalStartMonth
        then \<lparr>mb_account = acct, mb_month = month, openingBalance = starting acct,
               transactions = [], closingBalance = starting acct, summary = zeroSummary\<rparr>
        else \<lparr>mb_account = acct, mb_month = month, openingBalance = 0,
               transactions = [], closingBalance = 0, summary = zeroSummary\<rparr>) [1 .. 12])"

definition postToBucket :: "Occurrence \<Rightarrow> AccountPosting \<Rightarrow> MonthlyAccountBalance \<Rightarrow> MonthlyAccountBalance" where
  "postToBucket occurrence posting monthlyBalance =
     (let transaction =
            \<lparr>tx_id = (occ_id occurrence, account posting),
             tx_date = occ_date occurrence,
             tx_description = description posting,
             tx_amount = amount posting,
             tx_sourceOccurrenceId = occ_id occurrence,
             tx_patternName = occ_patternName occurrence,
             tx_type = occ_type occurrence,
             tx_category = occ_category occurrence\<rparr>;
          s = summary monthlyBalance;
          s = (if 0 < amount posting
               then s\<lparr>totalDebits := totalDebits s + amount posting\<rparr>
               else s\<lparr>totalCredits := totalCredits s + \<bar>amount posting\<bar>\<rparr>);
          s = s\<lparr>netChange := netChange s + amount posting\<rparr>
      in monthlyBalance\<lparr>transactions := transactions monthlyBalance @ [transaction],
                        summary := s\<rparr>)"

fun applyPostings :: "Occurrence \<Rightarrow> int \<Rightarrow> AccountPosting list \<Rightarrow> balanceMap \<Rightarrow> failure + balanceMap" where
  "applyPostings occurrence month [] balances = Inr balances"
| "applyPostings occurrence month (posting # rest) balances =
     (let accountBalances = balances (account posting)
      in case arrayGet accountBalances (month - 1) of
           None \<Rightarrow> Inl (TypeError ''monthlyBalance is undefined'')
         | Some monthlyBalance \<Rightarrow>
             applyPostings occurrence month rest
               (balances(account posting :=
                  accountBalances[nat (month - 1) :=
                    postToBucket occurrence posting monthlyBalance])))"

definition applyOccurrenceToBalances :: "Occurrence \<Rightarrow> balanceMap \<Rightarrow> failure + balanceMap" where
  "applyOccurrenceToBalances occurrence balances =
     applyPostings occurrence (isoMonth (occ_date occurrence)) (accountPostings occurrence) balances"

fun applyOccurrences :: "Occurrence list \<Rightarrow> balanceMap \<Rightarrow> failure + balanceMap" where
  "applyOccurrences [] balances = Inr balances"
| "applyOccurrences (occurrence # rest) balances =
     (case applyOccurrenceToBalances occurrence balances of
        Inl e \<Rightarrow> Inl e
      | Inr balances' \<Rightarrow> applyOccurrences rest balances')"

text \<open>
  The roll-forward of one account. \<open>previous\<close> is \<open>None\<close> at fiscal index 0 and the
  preceding month of the fiscal order afterwards.
\<close>

fun rollForward :: "int option \<Rightarrow> int list \<Rightarrow> MonthlyAccountBalance list \<Rightarrow> failure + MonthlyAccountBalance list" where
  "rollForward previous [] accountBalances = Inr accountBalances"
| "rollForward previous (month # rest) accountBalances =
     (case arrayGet accountBalances (month - 1) of
        None \<Rightarrow> Inl (TypeError ''monthlyBalance is undefined'')
      | Some monthlyBalance \<Rightarrow>
         (case previous of
            None \<Rightarrow>
              rollForward (Some month) rest
                (accountBalances[nat (month - 1) :=
                   monthlyBalance\<lparr>closingBalance :=
                     openingBalance monthlyBalance + netChange (summary monthlyBalance)\<rparr>])
          | Some previousFiscalMonth \<Rightarrow>
             (case arrayGet accountBalances (previousFiscalMonth - 1) of
                None \<Rightarrow> Inl (TypeError ''previousMonthBalance is undefined'')
              | Some previousMonthBalance \<Rightarrow>
                  rollForward (Some month) rest
                    (accountBalances[nat (month - 1) :=
                       monthlyBalance\<lparr>openingBalance := closingBalance previousMonthBalance,
                         closingBalance := closingBalance previousMonthBalance
                           + netChange (summary monthlyBalance)\<rparr>]))))"

fun finalizeAccounts :: "Account list \<Rightarrow> int list \<Rightarrow> balanceMap \<Rightarrow> failure + balanceMap" where
  "finalizeAccounts [] fiscalMonthOrder balances = Inr balances"
| "finalizeAccounts (acct # rest) fiscalMonthOrder balances =
     (case rollForward None fiscalMonthOrder (balances acct) of
        Inl e \<Rightarrow> Inl e
      | Inr accountBalances \<Rightarrow>
          finalizeAccounts rest fiscalMonthOrder (balances(acct := accountBalances)))"

definition finalizeBalances :: "balanceMap \<Rightarrow> int \<Rightarrow> failure + balanceMap" where
  "finalizeBalances balances fiscalStartMonth =
     finalizeAccounts accounts (getFiscalMonthOrder fiscalStartMonth) balances"

section \<open>Monthly and overall summaries\<close>

record RevenueTotals =
  rv_gross :: money
  rv_net :: money
  rv_vat :: money

record ExpenseTotals =
  ex_gross :: money
  ex_net :: money
  ex_vat :: money
  ex_deductibleVat :: money

text \<open>The display string \<^verbatim>\<open>monthName\<close> of a monthly summary is left out.\<close>

record MonthlySummary =
  ms_month :: int
  revenue :: RevenueTotals
  expenses :: ExpenseTotals
  ms_netProfit :: money
  netVatPosition :: money
  ms_accountBalances :: "Account \<Rightarrow> money"

record OverallSummary =
  totalRevenue :: RevenueTotals
  totalExpenses :: ExpenseTotals
  netProfit :: money
  totalVatCollected :: money
  totalVatDeductible :: money
  netVatOwed :: money
  finalAccountBalances :: "Account \<Rightarrow> money"

definition monthSummary :: "balanceMap \<Rightarrow> Occurrence list \<Rightarrow> int \<Rightarrow> failure + MonthlySummary" where
  "monthSummary balances occurrences month =
     (let monthOccurrences = filter (\<lambda>occ. isoMonth (occ_date occ) = month) occurrences;
          revenueOccurrences = filter (\<lambda>occ. occ_type occ = Revenue) monthOccurrences;
          rev = \<lparr>rv_gross = foldl (\<lambda>sum occ. sum + grossAmount occ) 0 revenueOccurrences,
                 rv_net = foldl (\<lambda>sum occ. sum + netAmount occ) 0 revenueOccurrences,
                 rv_vat = foldl (\<lambda>sum occ. sum + vatAmount occ) 0 revenueOccurrences\<rparr>;
          expenseOccurrences = filter (\<lambda>occ. occ_type occ = Expense) monthOccurrences;
          exps = \<lparr>ex_gross = foldl (\<lambda>sum occ. sum + grossAmount occ) 0 expenseOccurrences,
                  ex_net = foldl (\<lambda>sum occ. sum + netAmount occ) 0 expenseOccurrences,
                  ex_vat = foldl (\<lambda>sum occ. sum + vatAmount occ) 0 expenseOccurrences,
                  ex_deductibleVat = foldl (\<lambda>sum occ. sum +
                     (if occ_vatDeductible occ = Some True then vatAmount occ else 0)) 0
                     expenseOccurrences\<rparr>
      in case (arrayGet (balances Operating) (month - 1), arrayGet (balances Savings) (month - 1),
               arrayGet (balances Personal) (month - 1), arrayGet (balances Vat) (month - 1)) of
           (Some bo, Some bs, Some bp, Some bv) \<Rightarrow>
             Inr \<lparr>ms_month = month, revenue = rev, expenses = exps,
                   ms_netProfit = rv_net rev - ex_net exps,
                   netVatPosition = rv_vat rev - ex_deductibleVat exps,
                   ms_accountBalances = (\<lambda>acct. case acct of
                       Operating \<Rightarrow> closingBalance bo | Savings \<Rightarrow> closingBalance bs
                     | Personal \<Rightarrow> closingBalance bp | Vat \<Rightarrow> closingBalance bv)\<rparr>
         | _ \<Rightarrow> Inl (TypeError ''closingBalance of undefined''))"

fun monthSummaries :: "balanceMap \<Rightarrow> Occurrence list \<Rightarrow> int list \<Rightarrow> failure + MonthlySummary list" where
  "monthSummaries balances occurrences [] = Inr []"
| "monthSummaries balances occurrences (month # rest) =
     (case monthSummary balances occurrences month of
        Inl e \<Rightarrow> Inl e
      | Inr s \<Rightarrow> (case monthSummaries balances occurrences rest of
                    Inl e \<Rightarrow> Inl e
                  | Inr ss \<Rightarrow> Inr (s # ss)))"

definition calculateMonthlySummaries :: "balanceMap \<Rightarrow> Occurrence list \<Rightarrow> int \<Rightarrow> failure + MonthlySummary list" where
  "calculateMonthlySummaries balances occurrences fiscalStartMonth =
     monthSummaries balances occurrences (getFiscalMonthOrder fiscalStartMonth)"

definition addTotals :: "RevenueTotals \<times> ExpenseTotals \<Rightarrow> MonthlySummary \<Rightarrow> RevenueTotals \<times> ExpenseTotals" where
  "addTotals acc monthly =
     (\<lparr>rv_gross = rv_gross (fst acc) + rv_gross (revenue monthly),
       rv_net = rv_net (fst acc) + rv_net (revenue monthly),
       rv_vat = rv_vat (fst acc) + rv_vat (revenue monthly)\<rparr>,
      \<lparr>ex_gross = ex_gross (snd acc) + ex_gross (expenses monthly),
       ex_net = ex_net (snd acc) + ex_net (expenses monthly),
       ex_vat = ex_vat (snd acc) + ex_vat (expenses monthly),
       ex_deductibleVat = ex_deductibleVat (snd acc) + ex_deductibleVat (expenses monthly)\<rparr>)"

definition calculateOverallSummary :: "MonthlySummary list \<Rightarrow> OverallSummary" where
  "calculateOverallSummary monthlySummaries =
     (let totals = foldl addTotals
            (\<lparr>rv_gross = 0, rv_net = 0, rv_vat = 0\<rparr>,
             \<lparr>ex_gross = 0, ex_net = 0, ex_vat = 0, ex_deductibleVat = 0\<rparr>) monthlySummaries
      in \<lparr>totalRevenue = fst totals,
          totalExpenses = snd totals,
          netProfit = rv_net (fst totals) - ex_net (snd totals),
          totalVatCollected = rv_vat (fst totals),
          totalVatDeductible = ex_deductibleVat (snd totals),
          netVatOwed = rv_vat (fst totals) - ex_deductibleVat (snd totals),
          finalAccountBalances =
            (if monthlySummaries = [] then (\<lambda>acct. 0)
             else ms_accountBalances (last monthlySummaries))\<rparr>)"

section \<open>Input validation and invariant checks\<close>

record SimulationInputs =
  in_year :: int
  in_fiscalStartMonth :: int
  in_startingBalances :: "(Account \<Rightarrow> money) option"

definition maxPatterns :: nat where
  "maxPatterns = 100"

definition validateSimulationInputs :: "SimulationInputs \<Rightarrow> Pattern list \<Rightarrow> Pattern list \<Rightarrow> string list" where
  "validateSimulationInputs inputs revenuePatterns expensePatterns =
     (if in_year inputs < 2020 \<or> 2030 < in_year inputs
        then [''Year must be between 2020 and 2030''] else [])
     @ (if in_fiscalStartMonth inputs < 1 \<or> 12 < in_fiscalStartMonth inputs
        then [''Fiscal start month must be between 1 and 12''] else [])
     @ (if in_startingBalances inputs = None then [''Starting balances are required''] else [])
     @ (if maxPatterns < length revenuePatterns + length expensePatterns
        then [''Too many patterns''] else [])"

definition isWhiteSpace :: "char \<Rightarrow> bool" where
  "isWhiteSpace c = (c = CHR '' '' \<or> c = CHR 0x09 \<or> c = CHR 0x0A \<or> c = CHR 0x0B
     \<or> c = CHR 0x0C \<or> c = CHR 0x0D)"

definition validateCompanyForSimulation :: "Company \<Rightarrow> string list" where
  "validateCompanyForSimulation company =
     (if co_id company = [] then [''Company ID is required''] else [])
     @ (if co_userId company = [] then [''Company must be associated with a user''] else [])
     @ (if list_all isWhiteSpace (co_name company) then [''Company name is required''] else [])
     @ (if co_legalForm company = [] then [''Company legal form is required''] else [])
     @ (if co_activitySector company = [] then [''Company activity sector is required''] else [])
     @ (if co_capital company = None then [''Company capital is required''] else [])
     @ (if co_bankPartner company = [] then [''Company bank partner is required''] else [])
     @ (case co_fiscalYear company of
          None \<Rightarrow> []
        | Some fy \<Rightarrow> if fy \<noteq> [] \<and> fy \<noteq> ''calendar'' \<and> fy \<noteq> ''fiscal''
                     then [''Company fiscal year must be either calendar or fiscal''] else [])"

definition balanceInvariantsOf :: "Account \<Rightarrow> MonthlyAccountBalance list \<Rightarrow> money \<Rightarrow> int \<Rightarrow> failure + invariantError list" where
  "balanceInvariantsOf acct accountBalances initialBalance fiscalStartMonth =
     (case arrayGet accountBalances (fiscalStartMonth - 1) of
        None \<Rightarrow> Inl (TypeError ''fiscalStartBalance is undefined'')
      | Some fiscalStartBalance \<Rightarrow>
         (let errors1 =
                (if 1 / 100 < \<bar>openingBalance fiscalStartBalance - initialBalance\<bar>
                 then [FiscalStartOpeningMismatch acct (openingBalance fiscalStartBalance)
                         initialBalance]
                 else []);
              totalNetPostings =
                foldl (\<lambda>sum monthly. sum + netChange (summary monthly)) 0 accountBalances
          in case arrayGet (getFiscalMonthOrder fiscalStartMonth) 11 of
               None \<Rightarrow> Inl (TypeError ''lastFiscalMonth is undefined'')
             | Some lastFiscalMonth \<Rightarrow>
                (case arrayGet accountBalances (lastFiscalMonth - 1) of
                   None \<Rightarrow> Inl (TypeError ''closingBalance of undefined'')
                 | Some lastBalance \<Rightarrow>
                    (let finalBalance = closingBalance lastBalance;
                         expectedFinalBalance = initialBalance + totalNetPostings;
                         balanceDifference = \<bar>finalBalance - expectedFinalBalance\<bar>
                     in Inr (errors1 @
                          (if 1 / 100 < balanceDifference
                           then [FinalBalanceInvariantFailed acct expectedFinalBalance
                                   finalBalance balanceDifference]
                           else []))))))"

fun collectErrors :: "(Account \<Rightarrow> failure + invariantError list) \<Rightarrow> Account list \<Rightarrow> failure + invariantError list" where
  "collectErrors check [] = Inr []"
| "collectErrors check (acct # rest) =
     (case check acct of
        Inl e \<Rightarrow> Inl e
      | Inr errs \<Rightarrow> (case collectErrors check rest of
                       Inl e \<Rightarrow> Inl e
                     | Inr errs' \<Rightarrow> Inr (errs @ errs')))"

definition validateBalanceInvariants :: "balanceMap \<Rightarrow> (Account \<Rightarrow> money) \<Rightarrow> int \<Rightarrow> failure + invariantError list" where
  "validateBalanceInvariants balances starting fiscalStartMonth =
     collectErrors (\<lambda>acct. balanceInvariantsOf acct (balances acct) (starting acct)
                      fiscalStartMonth) accounts"

fun rollForwardChecks :: "Account \<Rightarrow> MonthlyAccountBalance list \<Rightarrow> int list \<Rightarrow> int list \<Rightarrow> failure + invariantError list" where
  "rollForwardChecks acct accountBalances fiscalMonthOrder [] = Inr []"
| "rollForwardChecks acct accountBalances fiscalMonthOrder (fiscalIndex # rest) =
     (case (arrayGet fiscalMonthOrder fiscalIndex, arrayGet fiscalMonthOrder (fiscalIndex - 1)) of
        (Some currentMonth, Some previousMonth) \<Rightarrow>
          (case (arrayGet accountBalances (currentMonth - 1),
                 arrayGet accountBalances (previousMonth - 1)) of
             (Some currentMonthBalance, Some previousMonthBalance) \<Rightarrow>
               (let rollForwardDifference =
                      \<bar>openingBalance currentMonthBalance - closingBalance previousMonthBalance\<bar>;
                    errors1 =
                      (if 1 / 100 < rollForwardDifference
                       then [RollForwardInvariantFailed acct previousMonth currentMonth
                               (closingBalance previousMonthBalance)
                               (openingBalance currentMonthBalance) rollForwardDifference]
                       else []);
                    expectedClosingBalance = openingBalance currentMonthBalance
                      + netChange (summary currentMonthBalance);
                    closingBalanceDifference =
                      \<bar>closingBalance currentMonthBalance - expectedClosingBalance\<bar>;
                    errors2 =
                      (if 1 / 100 < closingBalanceDifference
                       then [ClosingBalanceCalculationError acct currentMonth
                               expectedClosingBalance (closingBalance currentMonthBalance)
                               closingBalanceDifference]
                       else [])
                in case rollForwardChecks acct accountBalances fiscalMonthOrder rest of
                     Inl e \<Rightarrow> Inl e
                   | Inr errs \<Rightarrow> Inr (errors1 @ errors2 @ errs))
           | _ \<Rightarrow> Inl (TypeError ''monthly balance is undefined''))
      | _ \<Rightarrow> Inl (TypeError ''fiscal month is undefined''))"

definition validateRollForwardInvariants :: "balanceMap \<Rightarrow> int \<Rightarrow> failure + invariantError list" where
  "validateRollForwardInvariants balances fiscalStartMonth =
     collectErrors (\<lambda>acct. rollForwardChecks acct (balances acct)
                      (getFiscalMonthOrder fiscalStartMonth) [1 .. 11]) accounts"

definition validateVATInvariants :: "MonthlySummary list \<Rightarrow> OverallSummary \<Rightarrow> invariantError list" where
  "validateVATInvariants monthlyTotals overallTotals =
     (let totalMonthlyVATCollected =
            foldl (\<lambda>sum m. sum + rv_vat (revenue m)) 0 monthlyTotals;
          totalMonthlyVATDeductible =
            foldl (\<lambda>sum m. sum + ex_deductibleVat (expenses m)) 0 monthlyTotals;
          vatCollectedDifference =
            \<bar>totalMonthlyVATCollected - totalVatCollected overallTotals\<bar>;
          vatDeductibleDifference =
            \<bar>totalMonthlyVATDeductible - totalVatDeductible overallTotals\<bar>;
          expectedNetVAT = totalVatCollected overallTotals - totalVatDeductible overallTotals;
          netVATDifference = \<bar>expectedNetVAT - netVatOwed overallTotals\<bar>
      in (if 1 / 100 < vatCollectedDifference
          then [VatCollectedMismatch totalMonthlyVATCollected (totalVatCollected overallTotals)
                  vatCollectedDifference] else [])
       @ (if 1 / 100 < vatDeductibleDifference
          then [VatDeductibleMismatch totalMonthlyVATDeductible
                  (totalVatDeductible overallTotals) vatDeductibleDifference] else [])
       @ (if 1 / 100 < netVATDifference
          then [NetVatCalculationError expectedNetVAT (netVatOwed overallTotals)
                  netVATDifference] else []))"

section \<open>The simulation run\<close>

record Taxes =
  tva :: money
  urssaf :: money
  netCashFlow :: money

record ProgressUpdate =
  pu_simulationId :: string
  pu_currentMonth :: int
  progress :: rat
  partialBalances :: "(Account \<Rightarrow> money option) option"
  taxes :: "Taxes option"

text \<open>The wall-clock field \<^verbatim>\<open>processingTimeMs\<close> of the metadata is left out.\<close>

record SimulationResults =
  res_year :: int
  res_fiscalStartMonth :: int
  monthlyBalances :: "MonthlyAccountBalance list"
  monthlyTotals :: "MonthlySummary list"
  overallTotals :: OverallSummary
  totalOccurrences :: nat
  engineVersion :: string

datatype error =
    ValidationFailed "string list"
  | CompanyValidationFailed string
  | SimulationFailed failure

text \<open>
  \<^verbatim>\<open>emitProgress\<close> calls the callback only when both a callback and a non-empty
  simulation id were given; an exception of the callback is caught and logged. The run is
  embedded with the list of the updates passed to the callback, in order.
\<close>

definition emitProgress :: "bool \<Rightarrow> string option \<Rightarrow> int \<Rightarrow> rat \<Rightarrow> (Account \<Rightarrow> money option) option \<Rightarrow> Taxes option \<Rightarrow> ProgressUpdate list" where
  "emitProgress progressCallback simulationId month prog balances tx =
     (case simulationId of
        Some sid \<Rightarrow>
          if progressCallback \<and> sid \<noteq> []
          then [\<lparr>pu_simulationId = sid, pu_currentMonth = month, progress = prog,
                  partialBalances = balances, taxes = tx\<rparr>]
          else []
      | None \<Rightarrow> [])"

text \<open>
  The progress figures of a month sum \<^verbatim>\<open>o.postings.reduce(...)\<close> over the month's
  revenue and expense occurrences. An \<^verbatim>\<open>Occurrence\<close> has the property
  \<^verbatim>\<open>accountPostings\<close> and no property \<^verbatim>\<open>postings\<close>, so \<^verbatim>\<open>o.postings\<close> is
  \<^verbatim>\<open>undefined\<close> and the call of \<^verbatim>\<open>reduce\<close> on it throws a TypeError for the first
  occurrence met; over an empty list the outer \<^verbatim>\<open>reduce\<close> returns its initial value 0.
\<close>

definition sumOfPostings :: "Occurrence list \<Rightarrow> failure + money" where
  "sumOfPostings occs =
     (if occs = [] then Inr 0
      else Inl (TypeError ''Cannot read properties of undefined (reading reduce)''))"

definition indexOf :: "int list \<Rightarrow> int \<Rightarrow> int" where
  "indexOf xs x = (if x \<in> set xs then int (length (takeWhile (\<lambda>y. y \<noteq> x) xs)) else - 1)"

text \<open>\<^verbatim>\<open>localeCompare\<close> on the account names: operating, personal, savings, vat.\<close>

fun accountRank :: "Account \<Rightarrow> nat" where
  "accountRank Operating = 0"
| "accountRank Personal = 1"
| "accountRank Savings = 2"
| "accountRank Vat = 3"

fun monthLoop :: "bool \<Rightarrow> string option \<Rightarrow> (int \<Rightarrow> Occurrence list) \<Rightarrow> (nat \<times> int) list \<Rightarrow> balanceMap \<Rightarrow> ProgressUpdate list \<times> (failure + balanceMap)" where
  "monthLoop progressCallback simulationId monthlyOccurrences [] balances = ([], Inr balances)"
| "monthLoop progressCallback simulationId monthlyOccurrences ((i, month) # rest) balances =
     (let monthOccurrences = monthlyOccurrences month
      in case applyOccurrences monthOccurrences balances of
           Inl e \<Rightarrow> ([], Inl e)
         | Inr balances' \<Rightarrow>
            (let monthProgress = 20 + ((of_nat i + 1) / 12) * 60;
                 currentBalances = (\<lambda>acct.
                    map_option closingBalance
                      (find (\<lambda>b. mb_month b = month) (balances' acct)))
             in case sumOfPostings (filter (\<lambda>occ. occ_type occ = Revenue) monthOccurrences) of
                  Inl e \<Rightarrow> ([], Inl e)
                | Inr monthRevenue \<Rightarrow>
                   (case sumOfPostings (filter (\<lambda>occ. occ_type occ = Expense) monthOccurrences) of
                      Inl e \<Rightarrow> ([], Inl e)
                    | Inr monthExpenses \<Rightarrow>
                       (let tx = \<lparr>tva = \<bar>case currentBalances Vat of Some v \<Rightarrow> v | None \<Rightarrow> 0\<bar>,
                                   urssaf = monthRevenue * (45 / 100),
                                   netCashFlow = monthRevenue + monthExpenses\<rparr>;
                            emitted = emitProgress progressCallback simulationId month
                                        monthProgress (Some currentBalances) (Some tx);
                            (later, outcome) = monthLoop progressCallback simulationId
                                        monthlyOccurrences rest balances'
                        in (emitted @ later, outcome)))))"

text \<open>
  The three invariant checks of the run, in the order the source calls them; their error
  lists are concatenated.
\<close>

definition invariantErrorsOf :: "balanceMap \<Rightarrow> (Account \<Rightarrow> money) \<Rightarrow> int \<Rightarrow> MonthlySummary list \<Rightarrow> OverallSummary \<Rightarrow> failure + invariantError list" where
  "invariantErrorsOf balances starting fsm totals overall =
     (case validateBalanceInvariants balances starting fsm of
        Inl e \<Rightarrow> Inl e
      | Inr errors1 \<Rightarrow>
         (case validateRollForwardInvariants balances fsm of
            Inl e \<Rightarrow> Inl e
          | Inr errors2 \<Rightarrow> Inr (errors1 @ errors2 @ validateVATInvariants totals overall)))"

text \<open>Step 7 of the run: flatten the map in insertion order, then sort (stable).\<close>

definition sortMonthlyBalances :: "balanceMap \<Rightarrow> int \<Rightarrow> MonthlyAccountBalance list" where
  "sortMonthlyBalances balances fsm =
     (let flat = concat (map balances accounts);
          sortingFiscalOrder = getFiscalMonthOrder fsm
      in sort_key (\<lambda>b. (indexOf sortingFiscalOrder (mb_month b), accountRank (mb_account b)))
           flat)"

text \<open>Steps 4 to 7 of the try block of \<^verbatim>\<open>runSimulation\<close>, after the month loop.\<close>

definition finishSimulation :: "(int \<Rightarrow> rat \<Rightarrow> ProgressUpdate list) \<Rightarrow> SimulationInputs \<Rightarrow> (Account \<Rightarrow> money) \<Rightarrow> Occurrence list \<Rightarrow> balanceMap \<Rightarrow> ProgressUpdate list \<times> (failure + SimulationResults)" where
  "finishSimulation emit inputs starting occurrences balances1 =
     (let t4 = emit 12 85
      in case finalizeBalances balances1 (in_fiscalStartMonth inputs) of
           Inl e \<Rightarrow> (t4, Inl e)
         | Inr balances2 \<Rightarrow>
            (let t5 = t4 @ emit 12 90
             in case calculateMonthlySummaries balances2 occurrences
                       (in_fiscalStartMonth inputs) of
                  Inl e \<Rightarrow> (t5, Inl e)
                | Inr totals \<Rightarrow>
                   (let t6 = t5 @ emit 12 95;
                        overall = calculateOverallSummary totals
                    in case invariantErrorsOf balances2 starting (in_fiscalStartMonth inputs)
                              totals overall of
                         Inl e \<Rightarrow> (t6, Inl e)
                       | Inr invariantErrors \<Rightarrow>
                           if invariantErrors \<noteq> []
                           then (t6, Inl (InvariantViolation invariantErrors))
                           else (t6 @ emit 12 100,
                                 Inr \<lparr>res_year = in_year inputs,
                                      res_fiscalStartMonth = in_fiscalStartMonth inputs,
                                      monthlyBalances =
                                        sortMonthlyBalances balances2 (in_fiscalStartMonth inputs),
                                      monthlyTotals = totals,
                                      overallTotals = overall,
                                      totalOccurrences = length occurrences,
                                      engineVersion = ''v1''\<rparr>))))"

text \<open>
  The result pairs the progress updates passed to the callback with the outcome: the
  results, or the error thrown. Errors raised inside the try block are rethrown wrapped
  (\<open>SimulationFailed\<close>).
\<close>

definition runSimulation :: "SimulationInputs \<Rightarrow> Pattern list \<Rightarrow> Pattern list \<Rightarrow> Company \<Rightarrow> string option \<Rightarrow> bool \<Rightarrow> ProgressUpdate list \<times> (error + SimulationResults)" where
  "runSimulation inputs revenuePatterns expensePatterns company simulationId progressCallback =
     (let allValidationErrors =
            validateSimulationInputs inputs revenuePatterns expensePatterns
            @ validateCompanyForSimulation company
      in if allValidationErrors \<noteq> [] then ([], Inl (ValidationFailed allValidationErrors))
         else if co_id company = []
           then ([], Inl (CompanyValidationFailed ''Invalid company ID format''))
         else if co_userId company = []
           then ([], Inl (CompanyValidationFailed ''Invalid user ID format''))
         else
          (let starting = (case in_startingBalances inputs of
                             Some sb \<Rightarrow> sb | None \<Rightarrow> (\<lambda>acct. 0));
               emit = (\<lambda>month prog. emitProgress progressCallback simulationId month prog
                                       None None);
               t1 = emit 1 10;
               occurrences = expandAllPatterns revenuePatterns expensePatterns company
                               (in_year inputs);
               t2 = t1 @ emit 1 20;
               balances0 = createInitialBalances starting (in_fiscalStartMonth inputs);
               processingFiscalOrder = getFiscalMonthOrder (in_fiscalStartMonth inputs);
               monthlyOccurrences = (\<lambda>month.
                  filter (\<lambda>occ. getMonth (parseDate (occ_date occ)) + 1 = month) occurrences);
               (t3, looped) = monthLoop progressCallback simulationId monthlyOccurrences
                                (enumerate 0 processingFiscalOrder) balances0
           in case looped of
                Inl e \<Rightarrow> (t2 @ t3, Inl (SimulationFailed e))
              | Inr balances1 \<Rightarrow>
                 (let (t4, outcome) = finishSimulation emit inputs starting occurrences balances1
                  in (t2 @ t3 @ t4, map_sum SimulationFailed id outcome))))"

section \<open>Inputs of the integration scenarios\<close>

text \<open>\<^verbatim>\<open>createTestCompany\<close> of the integration tests.\<close>

definition createTestCompany :: "int \<Rightarrow> Company" where
  "createTestCompany fsm =
     \<lparr>co_id = ''test-company-001'', co_userId = ''test-user-001'',
      co_name = ''Test Company SAS'', co_legalForm = ''sas'',
      co_activitySector = ''technology'', co_capital = Some 10000,
      co_bankPartner = ''Test Bank'',
      co_fiscalYear = Some (if fsm = 1 then ''calendar'' else ''fiscal''),
      co_holidayRegion = ''FR''\<rparr>"

text \<open>The inputs and the two revenue patterns of \<^verbatim>\<open>testPureRevenuePattern\<close>.\<close>

definition pureRevenueInputs :: SimulationInputs where
  "pureRevenueInputs =
     \<lparr>in_year = 2024, in_fiscalStartMonth = 1,
      in_startingBalances = Some (\<lambda>acct. case acct of
          Operating \<Rightarrow> 1000 | Savings \<Rightarrow> 5000 | Personal \<Rightarrow> 0 | Vat \<Rightarrow> 0)\<rparr>"

definition monthlyServiceRevenue :: Pattern where
  "monthlyServiceRevenue =
     \<lparr>pat_id = ''rev-001'', pat_name = ''Monthly Service Revenue'', pat_amount = 12000,
      pat_frequency = ''monthly'', startMonth = 1, pat_isRecurring = Some 1,
      excludeWeekends = Some 0, excludeHolidays = Some 0, daysMask = None,
      dayOffOverrides = None, startDate = None, pat_kind = RevenuePattern (Some 20)\<rparr>"

definition quarterlyConsultingRevenue :: Pattern where
  "quarterlyConsultingRevenue =
     \<lparr>pat_id = ''rev-002'', pat_name = ''Quarterly Consulting Revenue'', pat_amount = 15000,
      pat_frequency = ''quarterly'', startMonth = 3, pat_isRecurring = Some 1,
      excludeWeekends = Some 0, excludeHolidays = Some 0, daysMask = None,
      dayOffOverrides = None, startDate = None, pat_kind = RevenuePattern (Some 20)\<rparr>"

text \<open>
  A daily revenue pattern on every day of the week, with no exclusion, no override and no
  start date, starting in \<open>sm\<close>.
\<close>

definition everyDayPattern :: "int \<Rightarrow> Pattern" where
  "everyDayPattern sm =
     \<lparr>pat_id = ''rev-daily'', pat_name = ''Daily Sales'', pat_amount = 120,
      pat_frequency = ''daily'', startMonth = sm, pat_isRecurring = Some 1,
      excludeWeekends = Some 0, excludeHolidays = Some 0, daysMask = Some 127,
      dayOffOverrides = Some [], startDate = None, pat_kind = RevenuePattern (Some 20)\<rparr>"

text \<open>The same pattern with two overrides for 1 May 2024: first active, then inactive.\<close>

definition duplicateOverridePattern :: Pattern where
  "duplicateOverridePattern =
     (everyDayPattern 1)\<lparr>dayOffOverrides := Some
        [\<lparr>ov_date = DateISO 2024 5 1, ov_active = True, ov_reason = None\<rparr>,
         \<lparr>ov_date = DateISO 2024 5 1, ov_active = False, ov_reason = None\<rparr>]\<rparr>"


definition officeRent :: Pattern where
  "officeRent =
     \<lparr>pat_id = ''exp-001'', pat_name = ''Office Rent'', pat_amount = 2400,
      pat_frequency = ''yearly'', startMonth = 1, pat_isRecurring = Some 1,
      excludeWeekends = Some 0, excludeHolidays = Some 0, daysMask = None,
      dayOffOverrides = None, startDate = None,
      pat_kind = ExpensePattern ''rent'' (Some 1)\<rparr>"

section \<open>The days a daily expansion visits\<close>

text \<open>
  The dates the loop of \<^verbatim>\<open>expandDailyPattern\<close> steps through, without the pattern: a
  device of the proofs, with the loop's own recursion.
\<close>

function datesBetween :: "jsDate \<Rightarrow> jsDate \<Rightarrow> jsDate list" where
  "datesBetween currentDate endDate =
     (if date_le currentDate endDate
      then currentDate # datesBetween (nextDay currentDate) endDate
      else [])"
  by pat_completeness auto
termination
proof (relation "measures
    [\<lambda>(cur, e). nat (getFullYear e - getFullYear cur + 1),
     \<lambda>(cur, e). nat (12 - getMonth cur),
     \<lambda>(cur, e). nat (32 - getDate cur)]", goal_cases)
  case 1
  show ?case by simp
next
  case (2 currentDate endDate)
  obtain y m d where cur: "currentDate = JsDate y m d" by (cases currentDate)
  obtain y' m' d' where en: "endDate = JsDate y' m' d'" by (cases endDate)
  have dim: "daysInMonth y m \<le> 31" by (simp add: daysInMonth_def)
  from 2 have le: "y \<le> y'" by (auto simp: date_le_def cur en less_eq_prod_def)
  show ?case using le dim by (auto simp: cur en)
qed

declare datesBetween.simps [simp del]

text \<open>The calendar of a year from month index \<open>m\<close> on, written out.\<close>

definition calendarFrom :: "int \<Rightarrow> int \<Rightarrow> jsDate list" where
  "calendarFrom y m = concat (map (\<lambda>k. map (JsDate y k) [1 .. daysInMonth y k]) [m .. 11])"

section \<open>Properties\<close>

subsection \<open>Occurrences are built by createOccurrence\<close>

lemma dailyLoop_eq:
  "dailyLoop pattern company holidays cur en =
     map (createOccurrence pattern company)
       (filter (\<lambda>d. isDateActive d pattern holidays) (datesBetween cur en))"
proof (induction pattern company holidays cur en rule: dailyLoop.induct)
  case (1 pattern company holidays currentDate endDate)
  show ?case
  proof (cases "date_le currentDate endDate")
    case True
    then show ?thesis
      using 1 by (subst dailyLoop.simps, subst datesBetween.simps) simp
  next
    case False
    then show ?thesis
      by (subst dailyLoop.simps, subst datesBetween.simps) simp
  qed
qed

lemma expandPattern_created:
  "occ \<in> set (expandPattern pattern company yr) \<Longrightarrow>
   \<exists>d. occ = createOccurrence pattern company d"
  by (auto simp: expandPattern_def expandDailyPattern_def expandMonthlyPattern_def
      expandQuarterlyPattern_def expandYearlyPattern_def Let_def dailyLoop_eq
      split: if_splits)

lemma expandAllPatterns_created:
  "occ \<in> set (expandAllPatterns revs exps company yr) \<Longrightarrow>
   \<exists>pattern d. pattern \<in> set revs \<union> set exps \<and> occ = createOccurrence pattern company d"
  by (auto simp: expandAllPatterns_def Let_def dest: expandPattern_created)


lemma createOccurrence_date:
  "occ_date (createOccurrence pattern company d) = formatDateISO d"
  by (simp add: createOccurrence_def calculateVAT_def Let_def)

lemma first_of_month_2024: "getFirstDayOfMonth 2024 m = JsDate (2024 + (m - 1) div 12) ((m - 1) mod 12) 1"
  by (simp add: getFirstDayOfMonth_def newDate_def plusDays_def)



text \<open>
  C6. The postings of every occurrence the engine expands are exactly: for a revenue,
  operating \<open>+net\<close> then vat \<open>+vat\<close>; for an expense, operating \<open>-net\<close>, followed by vat
  \<open>-vat\<close> exactly when the expense is VAT-deductible and its VAT is positive.
\<close>

theorem accountPostings_exact:
  assumes "occ \<in> set (expandAllPatterns revenuePatterns expensePatterns company yr)"
  shows "accountPostings occ =
     (if occ_type occ = Revenue
      then [\<lparr>account = Operating, amount = netAmount occ,
              description = ''Revenue: '' @ occ_patternName occ\<rparr>,
            \<lparr>account = Vat, amount = vatAmount occ,
              description = ''VAT on revenue: '' @ occ_patternName occ\<rparr>]
      else if occ_vatDeductible occ = Some True \<and> 0 < vatAmount occ
      then [\<lparr>account = Operating, amount = - netAmount occ,
              description = ''Expense: '' @ occ_patternName occ\<rparr>,
            \<lparr>account = Vat, amount = - vatAmount occ,
              description = ''Deductible VAT: '' @ occ_patternName occ\<rparr>]
      else [\<lparr>account = Operating, amount = - netAmount occ,
              description = ''Expense: '' @ occ_patternName occ\<rparr>])"
proof -
  from assms obtain pattern d where occ: "occ = createOccurrence pattern company d"
    using expandAllPatterns_created by blast
  show ?thesis
    unfolding occ
    by (cases "pat_kind pattern")
       (simp_all add: createOccurrence_def calculateVAT_def Let_def
         generateRevenuePostings_def generateExpensePostings_def)
qed

theorem accountPostings_exact_witness:
  "createOccurrence officeRent (createTestCompany 1) (JsDate 2024 0 1)
     \<in> set (expandAllPatterns [] [officeRent] (createTestCompany 1) 2024)
   \<and> accountPostings (createOccurrence officeRent (createTestCompany 1) (JsDate 2024 0 1)) =
       [\<lparr>account = Operating, amount = - 2000, description = ''Expense: Office Rent''\<rparr>,
        \<lparr>account = Vat, amount = - 400, description = ''Deductible VAT: Office Rent''\<rparr>]"
proof -
  have m: "createOccurrence officeRent (createTestCompany 1) (JsDate 2024 0 1)
     \<in> set (expandAllPatterns [] [officeRent] (createTestCompany 1) 2024)"
    by (simp add: expandAllPatterns_def expandPattern_def expandYearlyPattern_def
        first_of_month_2024 officeRent_def)
  have v: "occ_type (createOccurrence officeRent (createTestCompany 1) (JsDate 2024 0 1)) = Expense"
    "occ_vatDeductible (createOccurrence officeRent (createTestCompany 1) (JsDate 2024 0 1)) = Some True"
    "vatAmount (createOccurrence officeRent (createTestCompany 1) (JsDate 2024 0 1)) = 400"
    "netAmount (createOccurrence officeRent (createTestCompany 1) (JsDate 2024 0 1)) = 2000"
    "occ_patternName (createOccurrence officeRent (createTestCompany 1) (JsDate 2024 0 1)) = ''Office Rent''"
    by (simp_all add: createOccurrence_def calculateVAT_def Let_def officeRent_def
        generateExpensePostings_def)
  show ?thesis
    using accountPostings_exact [OF m] m by (simp add: v)
qed

subsection \<open>Holidays\<close>


text \<open>
  The Easter Sundays of the years the engine accepts, and a weekday, as a check of the
  calendar model: 1 May 2024 was a Wednesday.
\<close>

lemma easter_sundays_2020_2030:
  "map getEasterSunday [2020, 2021, 2022, 2023, 2024, 2025, 2026, 2027, 2028, 2029, 2030] =
     [JsDate 2020 3 12, JsDate 2021 3 4, JsDate 2022 3 17, JsDate 2023 3 9, JsDate 2024 2 31,
      JsDate 2025 3 20, JsDate 2026 3 5, JsDate 2027 2 28, JsDate 2028 3 16, JsDate 2029 3 1,
      JsDate 2030 3 21]"
  by code_simp

lemma labour_day_2024_weekday: "getDay (JsDate 2024 4 1) = 3"
  by code_simp

text \<open>
  The eleven national dates need not be distinct: in 2008 Ascension Day fell on 1 May.
\<close>

lemma ascension_2008: "formatDateISO (addDays (getEasterSunday 2008) 39) = DateISO 2008 5 1"
  by code_simp



subsection \<open>The window of a daily expansion\<close>

lemma daysInMonth_le_31: "daysInMonth y m \<le> 31"
  by (simp add: daysInMonth_def)

lemma daysInMonth_ge_28: "28 \<le> daysInMonth y m"
  by (simp add: daysInMonth_def)

lemma date_le_JsDate:
  "date_le (JsDate y m d) (JsDate y' m' d') =
     (y < y' \<or> (y = y' \<and> (m < m' \<or> (m = m' \<and> d \<le> d'))))"
  by (auto simp: date_le_def less_eq_prod_def)

lemma datesBetween_in_month:
  assumes "0 \<le> m" "m \<le> 11" "1 \<le> d" "d \<le> daysInMonth y m"
  shows "datesBetween (JsDate y m d) (JsDate y 11 31) =
           map (JsDate y m) [d .. daysInMonth y m]
           @ (if m < 11 then datesBetween (JsDate y (m + 1) 1) (JsDate y 11 31) else [])"
  using assms
proof (induction "nat (daysInMonth y m - d)" arbitrary: d)
  case 0
  then have d: "d = daysInMonth y m" by simp
  have le: "date_le (JsDate y m d) (JsDate y 11 31)"
    using 0 daysInMonth_le_31 [of y m] by (auto simp: date_le_JsDate)
  have nle: "\<not> date_le (JsDate (y + 1) 0 1) (JsDate y 11 31)"
    by (simp add: date_le_JsDate)
  have single: "[d .. daysInMonth y m] = [d]" using d by simp
  show ?case
    using le nle d single
    by (subst datesBetween.simps) (simp add: datesBetween.simps [of "JsDate (y + 1) 0 1"])
next
  case (Suc n)
  then have lt: "d < daysInMonth y m" by linarith
  have le: "date_le (JsDate y m d) (JsDate y 11 31)"
    using Suc.prems daysInMonth_le_31 [of y m] by (auto simp: date_le_JsDate)
  have n: "n = nat (daysInMonth y m - (d + 1))" using Suc.hyps(2) by linarith
  have ih: "datesBetween (JsDate y m (d + 1)) (JsDate y 11 31) =
           map (JsDate y m) [d + 1 .. daysInMonth y m]
           @ (if m < 11 then datesBetween (JsDate y (m + 1) 1) (JsDate y 11 31) else [])"
    using Suc.hyps(1) [OF n] Suc.prems lt by simp
  have cons: "[d .. daysInMonth y m] = d # [d + 1 .. daysInMonth y m]"
    using lt by (simp add: upto_rec1)
  show ?case
    using le lt ih cons by (subst datesBetween.simps) simp
qed

lemma datesBetween_from_month:
  assumes "0 \<le> m" "m \<le> 11"
  shows "datesBetween (JsDate y m 1) (JsDate y 11 31) = calendarFrom y m"
  using assms
proof (induction "nat (11 - m)" arbitrary: m)
  case 0
  then have m: "m = 11" by simp
  have "[11 .. 11] = [11::int]" by simp
  then show ?case
    using datesBetween_in_month [of 11 1 y] daysInMonth_ge_28 [of y 11]
    by (simp add: m calendarFrom_def)
next
  case (Suc n)
  then have lt: "m < 11" by linarith
  have n: "n = nat (11 - (m + 1))" using Suc.hyps(2) by linarith
  have ih: "datesBetween (JsDate y (m + 1) 1) (JsDate y 11 31) = calendarFrom y (m + 1)"
    using Suc.hyps(1) [OF n] Suc.prems lt by simp
  have cons: "[m .. 11] = m # [m + 1 .. 11]" using lt by (simp add: upto_rec1)
  show ?case
    using datesBetween_in_month [of m 1 y] daysInMonth_ge_28 [of y m] Suc.prems lt ih
    by (simp add: calendarFrom_def cons)
qed

lemma calendarFrom_mem:
  "JsDate y m d \<in> set (calendarFrom y' m0)
     \<longleftrightarrow> y = y' \<and> m0 \<le> m \<and> m \<le> 11 \<and> 1 \<le> d \<and> d \<le> daysInMonth y m"
  by (auto simp: calendarFrom_def image_iff)

lemma nextDay_iterate:
  "int k < daysInMonth y m \<Longrightarrow> (nextDay ^^ k) (JsDate y m 1) = JsDate y m (1 + int k)"
  by (induction k) auto

lemma newDate_plain:
  assumes "\<not> (0 \<le> y \<and> y \<le> 99)" "0 \<le> m" "m \<le> 11" "1 \<le> d" "d \<le> daysInMonth y m"
  shows "newDate y m d = JsDate y m d"
proof -
  have "(nextDay ^^ nat (d - 1)) (JsDate y m 1) = JsDate y m (1 + int (nat (d - 1)))"
    using assms by (intro nextDay_iterate) simp
  moreover have "(if 0 \<le> y \<and> y \<le> 99 then 1900 + y else y) = y"
    using assms(1) by auto
  ultimately show ?thesis
    using assms(2-) by (simp add: newDate_def plusDays_def)
qed

lemma expandDaily_no_startDate:
  assumes "startDate pattern = None" "1 \<le> startMonth pattern" "startMonth pattern \<le> 12"
      and "\<not> (0 \<le> yr \<and> yr \<le> 99)"
  shows "expandDailyPattern pattern company yr holidays =
           map (createOccurrence pattern company)
             (filter (\<lambda>d. isDateActive d pattern holidays)
                (calendarFrom yr (startMonth pattern - 1)))"
proof -
  have s: "getFirstDayOfMonth yr (startMonth pattern) = JsDate yr (startMonth pattern - 1) 1"
    unfolding getFirstDayOfMonth_def
    using assms daysInMonth_ge_28 [of yr "startMonth pattern - 1"]
    by (intro newDate_plain) simp_all
  have e: "newDate yr 11 31 = JsDate yr 11 31"
    using assms(4) by (intro newDate_plain) (simp_all add: daysInMonth_def)
  show ?thesis
    using assms
    by (simp add: expandDailyPattern_def s e dailyLoop_eq datesBetween_from_month)
qed

lemma all_days_mask: "0 \<le> k \<Longrightarrow> k < 7 \<Longrightarrow> (127::int) AND push_bit (nat k) 1 \<noteq> 0"
proof -
  assume "0 \<le> k" "k < 7"
  then have "k = 0 \<or> k = 1 \<or> k = 2 \<or> k = 3 \<or> k = 4 \<or> k = 5 \<or> k = 6" by linarith
  then show ?thesis by (elim disjE) simp_all
qed

lemma getDay_range: "0 \<le> getDay d" "getDay d < 7"
  by (simp_all add: getDay_def)

lemma isDateActive_every_day:
  assumes "daysMask pattern = Some 127" "\<not> truthy (excludeWeekends pattern)"
      and "\<not> truthy (excludeHolidays pattern)"
      and "dayOffOverrides pattern = None \<or> dayOffOverrides pattern = Some []"
  shows "isDateActive d pattern holidays"
  using assms all_days_mask [OF getDay_range, of d]
  by (auto simp: isDateActive_def Let_def)

lemma find_hd_filter:
  "filter P xs \<noteq> [] \<Longrightarrow> find P xs = Some (hd (filter P xs))"
  by (induction xs) auto

lemma isDateActive_override:
  assumes "dayOffOverrides pattern = Some ovs"
      and "filter (\<lambda>ov. ov_date ov = formatDateISO d) ovs \<noteq> []"
  shows "isDateActive d pattern holidays =
           ov_active (hd (filter (\<lambda>ov. ov_date ov = formatDateISO d) ovs))"
  using assms find_hd_filter [of "\<lambda>ov. ov_date ov = formatDateISO d" ovs]
  by (simp add: isDateActive_def Let_def)

lemma formatDateISO_inj: "formatDateISO a = formatDateISO b \<longleftrightarrow> a = b"
  by (cases a; cases b) (auto simp: formatDateISO_def)

lemma dailyLoop_date_mem:
  "formatDateISO d \<in> occ_date ` set (dailyLoop pattern company holidays cur en)
     \<longleftrightarrow> d \<in> set (datesBetween cur en) \<and> isDateActive d pattern holidays"
  by (auto simp: dailyLoop_eq createOccurrence_date formatDateISO_inj image_iff)

text \<open>
  C4 (as amended). For every daily pattern with no start date, the expansion window is the
  first day of the pattern's start month through 31 December of the target year,
  inclusive: the occurrences are those of the active days of that part of the calendar,
  in order. In particular a pattern on every day of the week, with no exclusion and no
  override, has one occurrence on every day from the first of its start month to
  31 December, and none in an earlier month.
\<close>

theorem daily_window_from_startMonth:
  assumes "startDate pattern = None" "1 \<le> startMonth pattern" "startMonth pattern \<le> 12"
      and "\<not> (0 \<le> yr \<and> yr \<le> 99)"
  shows "expandDailyPattern pattern company yr holidays =
           map (createOccurrence pattern company)
             (filter (\<lambda>d. isDateActive d pattern holidays)
                (calendarFrom yr (startMonth pattern - 1)))
       \<and> (daysMask pattern = Some 127 \<and> \<not> truthy (excludeWeekends pattern)
            \<and> \<not> truthy (excludeHolidays pattern)
            \<and> (dayOffOverrides pattern = None \<or> dayOffOverrides pattern = Some [])
          \<longrightarrow> map occ_date (expandDailyPattern pattern company yr holidays) =
                concat (map (\<lambda>m. map (DateISO yr m) [1 .. daysInMonth yr (m - 1)])
                          [startMonth pattern .. 12]))
       \<and> (\<forall>occ \<in> set (expandDailyPattern pattern company yr holidays).
            isoYear (occ_date occ) = yr \<and> startMonth pattern \<le> isoMonth (occ_date occ))"
proof -
  note eq = expandDaily_no_startDate [OF assms, of company holidays]
  have shift: "map (\<lambda>m. map (DateISO yr m) [1 .. daysInMonth yr (m - 1)]) [a + 1 .. b + 1]
      = map (\<lambda>k. map (formatDateISO \<circ> JsDate yr k) [1 .. daysInMonth yr k]) [a .. b]"
    for a b :: int
  proof (induction "nat (b - a + 1)" arbitrary: a)
    case 0
    then show ?case by simp
  next
    case (Suc n)
    then have le: "a \<le> b" by linarith
    have n: "n = nat (b - (a + 1) + 1)" using Suc.hyps(2) by linarith
    have c1: "[a .. b] = a # [a + 1 .. b]" using le by (simp add: upto_rec1)
    have c2: "[a + 1 .. b + 1] = (a + 1) # [a + 1 + 1 .. b + 1]"
      using le by (simp add: upto_rec1)
    show ?case
      using Suc.hyps(1) [OF n] by (simp add: c1 c2 formatDateISO_def comp_def)
  qed
  have cal: "map formatDateISO (calendarFrom yr (startMonth pattern - 1)) =
      concat (map (\<lambda>m. map (DateISO yr m) [1 .. daysInMonth yr (m - 1)])
                [startMonth pattern .. 12])"
    using shift [of "startMonth pattern - 1" 11]
    by (simp add: calendarFrom_def map_concat comp_def)
  have all: "daysMask pattern = Some 127 \<and> \<not> truthy (excludeWeekends pattern)
            \<and> \<not> truthy (excludeHolidays pattern)
            \<and> (dayOffOverrides pattern = None \<or> dayOffOverrides pattern = Some [])
          \<longrightarrow> map occ_date (expandDailyPattern pattern company yr holidays) =
                concat (map (\<lambda>m. map (DateISO yr m) [1 .. daysInMonth yr (m - 1)])
                          [startMonth pattern .. 12])"
  proof
    assume a: "daysMask pattern = Some 127 \<and> \<not> truthy (excludeWeekends pattern)
            \<and> \<not> truthy (excludeHolidays pattern)
            \<and> (dayOffOverrides pattern = None \<or> dayOffOverrides pattern = Some [])"
    then have "\<And>d. isDateActive d pattern holidays"
      using isDateActive_every_day by blast
    then show "map occ_date (expandDailyPattern pattern company yr holidays) =
                concat (map (\<lambda>m. map (DateISO yr m) [1 .. daysInMonth yr (m - 1)])
                          [startMonth pattern .. 12])"
      by (simp add: eq comp_def createOccurrence_date cal [symmetric])
  qed
  have none_before: "\<forall>occ \<in> set (expandDailyPattern pattern company yr holidays).
            isoYear (occ_date occ) = yr \<and> startMonth pattern \<le> isoMonth (occ_date occ)"
  proof
    fix occ assume "occ \<in> set (expandDailyPattern pattern company yr holidays)"
    then obtain d where d: "d \<in> set (calendarFrom yr (startMonth pattern - 1))"
        and occ: "occ = createOccurrence pattern company d"
      by (auto simp: eq)
    obtain y m dd where dd: "d = JsDate y m dd" by (cases d)
    show "isoYear (occ_date occ) = yr \<and> startMonth pattern \<le> isoMonth (occ_date occ)"
      using d by (simp add: occ dd createOccurrence_date formatDateISO_def calendarFrom_mem)
  qed
  show ?thesis using eq all none_before by blast
qed

lemma everyDay_fields:
  "startDate (everyDayPattern sm) = None" "startMonth (everyDayPattern sm) = sm"
  "daysMask (everyDayPattern sm) = Some 127"
  "\<not> truthy (excludeWeekends (everyDayPattern sm))"
  "\<not> truthy (excludeHolidays (everyDayPattern sm))"
  "dayOffOverrides (everyDayPattern sm) = Some []"
  "pat_frequency (everyDayPattern sm) = ''daily''"
  by (simp_all add: everyDayPattern_def)

theorem daily_window_from_startMonth_witness:
  "startDate (everyDayPattern 7) = None
   \<and> map occ_date (expandDailyPattern (everyDayPattern 7) (createTestCompany 1) 2024
        (getFrenchHolidays 2024 ''FR'')) =
       concat (map (\<lambda>m. map (DateISO 2024 m) [1 .. daysInMonth 2024 (m - 1)]) [7 .. 12])
   \<and> DateISO 2024 6 30 \<notin> occ_date ` set (expandDailyPattern (everyDayPattern 7)
        (createTestCompany 1) 2024 (getFrenchHolidays 2024 ''FR''))"
proof -
  have h: "startDate (everyDayPattern 7) = None" "1 \<le> startMonth (everyDayPattern 7)"
    "startMonth (everyDayPattern 7) \<le> 12" "\<not> (0 \<le> (2024::int) \<and> (2024::int) \<le> 99)"
    by (simp_all add: everyDay_fields)
  note t = daily_window_from_startMonth [OF h, of "createTestCompany 1"
      "getFrenchHolidays 2024 ''FR''"]
  have a: "map occ_date (expandDailyPattern (everyDayPattern 7) (createTestCompany 1) 2024
        (getFrenchHolidays 2024 ''FR'')) =
       concat (map (\<lambda>m. map (DateISO 2024 m) [1 .. daysInMonth 2024 (m - 1)])
         [startMonth (everyDayPattern 7) .. 12])"
    using t [THEN conjunct2, THEN conjunct1] by (simp add: everyDay_fields)
  have b: "\<forall>occ \<in> set (expandDailyPattern (everyDayPattern 7) (createTestCompany 1) 2024
        (getFrenchHolidays 2024 ''FR'')).
        isoYear (occ_date occ) = 2024 \<and> startMonth (everyDayPattern 7) \<le> isoMonth (occ_date occ)"
    using t [THEN conjunct2, THEN conjunct2] .
  have c: "DateISO 2024 6 30 \<notin> occ_date ` set (expandDailyPattern (everyDayPattern 7)
        (createTestCompany 1) 2024 (getFrenchHolidays 2024 ''FR''))"
  proof
    assume "DateISO 2024 6 30 \<in> occ_date ` set (expandDailyPattern (everyDayPattern 7)
        (createTestCompany 1) 2024 (getFrenchHolidays 2024 ''FR''))"
    then obtain occ where occ: "occ \<in> set (expandDailyPattern (everyDayPattern 7)
        (createTestCompany 1) 2024 (getFrenchHolidays 2024 ''FR''))"
        "occ_date occ = DateISO 2024 6 30"
      by auto
    from b occ(1) have "startMonth (everyDayPattern 7) \<le> isoMonth (occ_date occ)" by blast
    then show False by (simp add: occ(2) everyDay_fields)
  qed
  show ?thesis
    using a c by (simp add: everyDay_fields)
qed

theorem daily_window_counterexample:
  "startDate (everyDayPattern 7) = None \<and> startMonth (everyDayPattern 7) = 7
   \<and> daysMask (everyDayPattern 7) = Some 127
   \<and> \<not> truthy (excludeWeekends (everyDayPattern 7))
   \<and> \<not> truthy (excludeHolidays (everyDayPattern 7))
   \<and> dayOffOverrides (everyDayPattern 7) = Some []
   \<and> DateISO 2024 1 1 \<notin> occ_date ` set (expandPattern (everyDayPattern 7)
         (createTestCompany 1) 2024)"
proof -
  have p: "startDate (everyDayPattern 7) = None" "1 \<le> startMonth (everyDayPattern 7)"
    "startMonth (everyDayPattern 7) \<le> 12" "\<not> (0 \<le> (2024::int) \<and> (2024::int) \<le> 99)"
    by (simp_all add: everyDay_fields)
  have f: "pat_frequency (everyDayPattern 7) = ''daily''" by (simp add: everyDay_fields)
  have "DateISO 2024 1 1 \<notin> occ_date ` set (expandPattern (everyDayPattern 7)
         (createTestCompany 1) 2024)"
  proof
    assume "DateISO 2024 1 1 \<in> occ_date ` set (expandPattern (everyDayPattern 7)
         (createTestCompany 1) 2024)"
    then obtain d where d: "d \<in> set (calendarFrom 2024 (startMonth (everyDayPattern 7) - 1))"
        and iso: "formatDateISO d = DateISO 2024 1 1"
      by (auto simp: expandPattern_def f Let_def expandDaily_no_startDate [OF p]
            createOccurrence_date)
    obtain y m dd where dd: "d = JsDate y m dd" by (cases d)
    show False
      using d iso by (simp add: dd calendarFrom_mem formatDateISO_def everyDay_fields)
  qed
  then show ?thesis by (simp add: everyDay_fields)
qed

text \<open>
  C3 (as amended). For every daily pattern whose override list holds two or more entries
  for the same date, the verdict for that date is the active flag of the first such entry
  (the first wins); an occurrence is produced for a date the expansion visits if and only
  if that first entry is active.
\<close>

theorem override_first_wins:
  assumes "dayOffOverrides pattern = Some ovs"
      and "2 \<le> length (filter (\<lambda>ov. ov_date ov = formatDateISO d) ovs)"
  shows "isDateActive d pattern holidays =
           ov_active (hd (filter (\<lambda>ov. ov_date ov = formatDateISO d) ovs))
       \<and> (d \<in> set (datesBetween cur en) \<longrightarrow>
            (formatDateISO d \<in> occ_date ` set (dailyLoop pattern company holidays cur en))
              = ov_active (hd (filter (\<lambda>ov. ov_date ov = formatDateISO d) ovs)))
       \<and> (startDate pattern = None \<and> 1 \<le> startMonth pattern \<and> startMonth pattern \<le> 12
            \<and> \<not> (0 \<le> yr \<and> yr \<le> 99) \<and> d \<in> set (calendarFrom yr (startMonth pattern - 1))
          \<longrightarrow> (formatDateISO d \<in> occ_date ` set (expandDailyPattern pattern company yr holidays))
              = ov_active (hd (filter (\<lambda>ov. ov_date ov = formatDateISO d) ovs)))"
proof -
  from assms(2) have ne: "filter (\<lambda>ov. ov_date ov = formatDateISO d) ovs \<noteq> []" by auto
  note act = isDateActive_override [OF assms(1) ne, of holidays]
  have loop: "d \<in> set (datesBetween cur en) \<longrightarrow>
            (formatDateISO d \<in> occ_date ` set (dailyLoop pattern company holidays cur en))
              = ov_active (hd (filter (\<lambda>ov. ov_date ov = formatDateISO d) ovs))"
    using act by (simp add: dailyLoop_date_mem)
  have ex: "startDate pattern = None \<and> 1 \<le> startMonth pattern \<and> startMonth pattern \<le> 12
            \<and> \<not> (0 \<le> yr \<and> yr \<le> 99) \<and> d \<in> set (calendarFrom yr (startMonth pattern - 1))
          \<longrightarrow> (formatDateISO d \<in> occ_date ` set (expandDailyPattern pattern company yr holidays))
              = ov_active (hd (filter (\<lambda>ov. ov_date ov = formatDateISO d) ovs))"
  proof
    assume a: "startDate pattern = None \<and> 1 \<le> startMonth pattern \<and> startMonth pattern \<le> 12
            \<and> \<not> (0 \<le> yr \<and> yr \<le> 99) \<and> d \<in> set (calendarFrom yr (startMonth pattern - 1))"
    then have eq: "expandDailyPattern pattern company yr holidays =
           map (createOccurrence pattern company)
             (filter (\<lambda>d. isDateActive d pattern holidays)
                (calendarFrom yr (startMonth pattern - 1)))"
      using expandDaily_no_startDate by blast
    show "(formatDateISO d \<in> occ_date ` set (expandDailyPattern pattern company yr holidays))
              = ov_active (hd (filter (\<lambda>ov. ov_date ov = formatDateISO d) ovs))"
      using a act
      by (auto simp: eq createOccurrence_date formatDateISO_inj image_iff)
  qed
  show ?thesis using act loop ex by blast
qed

lemma duplicate_overrides:
  "dayOffOverrides duplicateOverridePattern = Some
        [\<lparr>ov_date = DateISO 2024 5 1, ov_active = True, ov_reason = None\<rparr>,
         \<lparr>ov_date = DateISO 2024 5 1, ov_active = False, ov_reason = None\<rparr>]"
  "startDate duplicateOverridePattern = None" "startMonth duplicateOverridePattern = 1"
  "pat_frequency duplicateOverridePattern = ''daily''"
  by (simp_all add: duplicateOverridePattern_def everyDayPattern_def)

theorem override_first_wins_witness:
  "2 \<le> length (filter (\<lambda>ov. ov_date ov = formatDateISO (JsDate 2024 4 1))
           [\<lparr>ov_date = DateISO 2024 5 1, ov_active = True, ov_reason = None\<rparr>,
            \<lparr>ov_date = DateISO 2024 5 1, ov_active = False, ov_reason = None\<rparr>])
   \<and> isDateActive (JsDate 2024 4 1) duplicateOverridePattern (getFrenchHolidays 2024 ''FR'')
   \<and> DateISO 2024 5 1 \<in> occ_date ` set (expandDailyPattern duplicateOverridePattern
         (createTestCompany 1) 2024 (getFrenchHolidays 2024 ''FR''))"
proof -
  have l: "2 \<le> length (filter (\<lambda>ov. ov_date ov = formatDateISO (JsDate 2024 4 1))
           [\<lparr>ov_date = DateISO 2024 5 1, ov_active = True, ov_reason = None\<rparr>,
            \<lparr>ov_date = DateISO 2024 5 1, ov_active = False, ov_reason = None\<rparr>])"
    by (simp add: formatDateISO_def)
  have c: "JsDate 2024 4 1 \<in> set (calendarFrom 2024 (startMonth duplicateOverridePattern - 1))"
    by (simp add: calendarFrom_mem duplicate_overrides daysInMonth_def)
  have f: "formatDateISO (JsDate 2024 4 1) = DateISO 2024 5 1" by (simp add: formatDateISO_def)
  show ?thesis
    using override_first_wins [OF duplicate_overrides(1) l, of "getFrenchHolidays 2024 ''FR''"
        "JsDate 2024 0 1" "JsDate 2024 11 31" "createTestCompany 1" 2024] l c
    by (simp add: duplicate_overrides f)
qed

theorem override_last_wins_counterexample:
  "2 \<le> length (filter (\<lambda>ov. ov_date ov = DateISO 2024 5 1)
           (the (dayOffOverrides duplicateOverridePattern)))
   \<and> \<not> ov_active (last (filter (\<lambda>ov. ov_date ov = DateISO 2024 5 1)
           (the (dayOffOverrides duplicateOverridePattern))))
   \<and> isDateActive (JsDate 2024 4 1) duplicateOverridePattern (getFrenchHolidays 2024 ''FR'')
   \<and> DateISO 2024 5 1 \<in> occ_date ` set (expandPattern duplicateOverridePattern
         (createTestCompany 1) 2024)"
proof -
  have f: "formatDateISO (JsDate 2024 4 1) = DateISO 2024 5 1" by (simp add: formatDateISO_def)
  have a: "isDateActive (JsDate 2024 4 1) duplicateOverridePattern holidays" for holidays
    by (simp add: isDateActive_def Let_def duplicate_overrides f)
  have p: "startDate duplicateOverridePattern = None" "1 \<le> startMonth duplicateOverridePattern"
    "startMonth duplicateOverridePattern \<le> 12" "\<not> (0 \<le> (2024::int) \<and> (2024::int) \<le> 99)"
    by (simp_all add: duplicate_overrides)
  have c: "JsDate 2024 4 1 \<in> set (calendarFrom 2024 (startMonth duplicateOverridePattern - 1))"
    by (simp add: calendarFrom_mem duplicate_overrides daysInMonth_def)
  have m: "DateISO 2024 5 1 \<in> occ_date ` set (expandPattern duplicateOverridePattern
         (createTestCompany 1) 2024)"
    unfolding f [symmetric]
    using a c
    by (auto simp: expandPattern_def duplicate_overrides Let_def
          expandDaily_no_startDate [OF p] createOccurrence_date image_iff formatDateISO_inj)
  show ?thesis
    using a m by (simp add: duplicate_overrides)
qed

subsection \<open>The shape of a run\<close>


lemma validated_inputs:
  assumes "validateSimulationInputs inputs revs exps = []"
  shows "1 \<le> in_fiscalStartMonth inputs" "in_fiscalStartMonth inputs \<le> 12"
    "2020 \<le> in_year inputs" "in_year inputs \<le> 2030"
    "\<exists>starting. in_startingBalances inputs = Some starting"
  using assms by (auto simp: validateSimulationInputs_def split: if_splits)

lemma validated_company:
  assumes "validateCompanyForSimulation company = []"
  shows "co_id company \<noteq> []" "co_userId company \<noteq> []"
  using assms by (simp_all add: validateCompanyForSimulation_def split: if_splits)

lemma run_invalid:
  "validateSimulationInputs inputs revs exps @ validateCompanyForSimulation company \<noteq> [] \<Longrightarrow>
   runSimulation inputs revs exps company sid cb =
     ([], Inl (ValidationFailed (validateSimulationInputs inputs revs exps
        @ validateCompanyForSimulation company)))"
  by (simp add: runSimulation_def Let_def)

lemma run_valid:
  assumes "validateSimulationInputs inputs revs exps = []"
      and "validateCompanyForSimulation company = []"
      and "in_startingBalances inputs = Some starting"
      and "monthLoop cb sid
       (\<lambda>month. filter (\<lambda>occ. getMonth (parseDate (occ_date occ)) + 1 = month)
          (expandAllPatterns revs exps company (in_year inputs)))
       (enumerate 0 (getFiscalMonthOrder (in_fiscalStartMonth inputs)))
       (createInitialBalances starting (in_fiscalStartMonth inputs)) = (t3, looped)"
  shows "runSimulation inputs revs exps company sid cb =
     (case looped of
        Inl e \<Rightarrow> (emitProgress cb sid 1 10 None None @ emitProgress cb sid 1 20 None None @ t3,
                  Inl (SimulationFailed e))
      | Inr balances1 \<Rightarrow>
          (emitProgress cb sid 1 10 None None @ emitProgress cb sid 1 20 None None @ t3
             @ fst (finishSimulation (\<lambda>month prog. emitProgress cb sid month prog None None)
                 inputs starting (expandAllPatterns revs exps company (in_year inputs)) balances1),
           map_sum SimulationFailed id
             (snd (finishSimulation (\<lambda>month prog. emitProgress cb sid month prog None None)
                 inputs starting (expandAllPatterns revs exps company (in_year inputs)) balances1))))"
  using assms validated_company [OF assms(2)]
  by (simp add: runSimulation_def Let_def split_beta split: sum.splits)

lemma finishSimulation_returns:
  assumes "snd (finishSimulation emit inputs starting occs balances1) = Inr res"
  obtains balances2 totals where
    "finalizeBalances balances1 (in_fiscalStartMonth inputs) = Inr balances2"
    "calculateMonthlySummaries balances2 occs (in_fiscalStartMonth inputs) = Inr totals"
    "invariantErrorsOf balances2 starting (in_fiscalStartMonth inputs) totals
       (calculateOverallSummary totals) = Inr []"
    "monthlyBalances res = sortMonthlyBalances balances2 (in_fiscalStartMonth inputs)"
    "overallTotals res = calculateOverallSummary totals"
    "monthlyTotals res = totals"
    "res_fiscalStartMonth res = in_fiscalStartMonth inputs"
    "fst (finishSimulation emit inputs starting occs balances1) =
       emit 12 85 @ emit 12 90 @ emit 12 95 @ emit 12 100"
proof -
  let ?s = "in_fiscalStartMonth inputs"
  obtain balances2 where b2: "finalizeBalances balances1 ?s = Inr balances2"
    using assms by (cases "finalizeBalances balances1 ?s") (simp_all add: finishSimulation_def)
  obtain totals where tt: "calculateMonthlySummaries balances2 occs ?s = Inr totals"
    using assms b2
    by (cases "calculateMonthlySummaries balances2 occs ?s")
       (simp_all add: finishSimulation_def Let_def)
  obtain errs where er: "invariantErrorsOf balances2 starting ?s totals
       (calculateOverallSummary totals) = Inr errs"
    using assms b2 tt
    by (cases "invariantErrorsOf balances2 starting ?s totals (calculateOverallSummary totals)")
       (simp_all add: finishSimulation_def Let_def)
  have e: "errs = []"
    using assms b2 tt er by (cases errs) (simp_all add: finishSimulation_def Let_def)
  have r: "res = \<lparr>res_year = in_year inputs, res_fiscalStartMonth = ?s,
        monthlyBalances = sortMonthlyBalances balances2 ?s, monthlyTotals = totals,
        overallTotals = calculateOverallSummary totals, totalOccurrences = length occs,
        engineVersion = ''v1''\<rparr>"
    using assms b2 tt er e by (simp add: finishSimulation_def Let_def)
  have t: "fst (finishSimulation emit inputs starting occs balances1) =
       emit 12 85 @ emit 12 90 @ emit 12 95 @ emit 12 100"
    using b2 tt er e by (simp add: finishSimulation_def Let_def)
  show thesis
    using that [OF b2 tt _ _ _ _ _ t] er e r by simp
qed

text \<open>A run that returns results went through every step of the try block.\<close>

lemma runSimulation_returns:
  assumes "runSimulation inputs revs exps company sid cb = (trace, Inr res)"
  obtains starting t3 balances1 balances2 totals where
    "validateSimulationInputs inputs revs exps = []"
    "in_startingBalances inputs = Some starting"
    "monthLoop cb sid
       (\<lambda>month. filter (\<lambda>occ. getMonth (parseDate (occ_date occ)) + 1 = month)
          (expandAllPatterns revs exps company (in_year inputs)))
       (enumerate 0 (getFiscalMonthOrder (in_fiscalStartMonth inputs)))
       (createInitialBalances starting (in_fiscalStartMonth inputs)) = (t3, Inr balances1)"
    "finalizeBalances balances1 (in_fiscalStartMonth inputs) = Inr balances2"
    "calculateMonthlySummaries balances2 (expandAllPatterns revs exps company (in_year inputs))
       (in_fiscalStartMonth inputs) = Inr totals"
    "invariantErrorsOf balances2 starting (in_fiscalStartMonth inputs) totals
       (calculateOverallSummary totals) = Inr []"
    "monthlyBalances res = sortMonthlyBalances balances2 (in_fiscalStartMonth inputs)"
    "overallTotals res = calculateOverallSummary totals"
    "monthlyTotals res = totals"
    "res_fiscalStartMonth res = in_fiscalStartMonth inputs"
    "trace = emitProgress cb sid 1 10 None None @ emitProgress cb sid 1 20 None None @ t3
       @ emitProgress cb sid 12 85 None None @ emitProgress cb sid 12 90 None None
       @ emitProgress cb sid 12 95 None None @ emitProgress cb sid 12 100 None None"
proof -
  let ?s = "in_fiscalStartMonth inputs"
  let ?occs = "expandAllPatterns revs exps company (in_year inputs)"
  let ?emit = "\<lambda>month prog. emitProgress cb sid month prog None None"
  have v0: "validateSimulationInputs inputs revs exps @ validateCompanyForSimulation company = []"
    using assms run_invalid [of inputs revs exps company sid cb] by fastforce
  then have v: "validateSimulationInputs inputs revs exps = []"
    "validateCompanyForSimulation company = []"
    by simp_all
  obtain starting where st: "in_startingBalances inputs = Some starting"
    using validated_inputs(5) [OF v(1)] by blast
  obtain t3 looped where ml: "monthLoop cb sid
       (\<lambda>month. filter (\<lambda>occ. getMonth (parseDate (occ_date occ)) + 1 = month) ?occs)
       (enumerate 0 (getFiscalMonthOrder ?s))
       (createInitialBalances starting ?s) = (t3, looped)"
    by fastforce
  note rv = run_valid [OF v st ml]
  obtain balances1 where b1: "looped = Inr balances1"
    using assms rv by (cases looped) simp_all
  have f: "snd (finishSimulation ?emit inputs starting ?occs balances1) = Inr res"
    using assms rv b1
    by (cases "snd (finishSimulation ?emit inputs starting ?occs balances1)") simp_all
  have tr: "trace = ?emit 1 10 @ ?emit 1 20 @ t3
      @ fst (finishSimulation ?emit inputs starting ?occs balances1)"
    using assms rv b1 by simp
  from f show thesis
  proof (rule finishSimulation_returns)
    fix balances2 totals
    assume "finalizeBalances balances1 ?s = Inr balances2"
      "calculateMonthlySummaries balances2 ?occs ?s = Inr totals"
      "invariantErrorsOf balances2 starting ?s totals (calculateOverallSummary totals) = Inr []"
      "monthlyBalances res = sortMonthlyBalances balances2 ?s"
      "overallTotals res = calculateOverallSummary totals"
      "monthlyTotals res = totals"
      "res_fiscalStartMonth res = ?s"
      "fst (finishSimulation ?emit inputs starting ?occs balances1) =
         ?emit 12 85 @ ?emit 12 90 @ ?emit 12 95 @ ?emit 12 100"
    then show thesis
      using that [OF v(1) st _ _ _ _ _ _ _ _ _] ml b1 tr by simp
  qed
qed

subsection \<open>The progress updates of a run\<close>

lemma emitProgress_given:
  "sid \<noteq> [] \<Longrightarrow> map progress (emitProgress True (Some sid) m p b t) = [p]"
  by (simp add: emitProgress_def)

lemma monthLoop_progress:
  assumes "sid \<noteq> []"
  shows "\<exists>k\<le>length xs.
           map progress (fst (monthLoop True (Some sid) mo (enumerate n xs) bm))
             = map (\<lambda>i. 25 + 5 * of_nat i) [n ..< n + k]
         \<and> (\<forall>bm'. snd (monthLoop True (Some sid) mo (enumerate n xs) bm) = Inr bm'
               \<longrightarrow> k = length xs)"
proof (induction xs arbitrary: n bm)
  case Nil
  show ?case by simp
next
  case (Cons x xs)
  let ?run = "monthLoop True (Some sid) mo (enumerate n (x # xs)) bm"
  show ?case
  proof (cases "applyOccurrences (mo x) bm")
    case (Inl e)
    then have "fst ?run = []" "snd ?run = Inl e" by simp_all
    then show ?thesis by (intro exI [of _ 0]) simp
  next
    case (Inr bm1)
    show ?thesis
    proof (cases "mo x = []")
      case False
      then have "filter (\<lambda>occ. occ_type occ = Revenue) (mo x) \<noteq> []
          \<or> filter (\<lambda>occ. occ_type occ = Expense) (mo x) \<noteq> []"
        by (cases "mo x") (auto intro: occType.exhaust)
      then have "fst ?run = [] \<and> (\<exists>e. snd ?run = Inl e)"
        using Inr by (auto simp: sumOfPostings_def Let_def)
      then show ?thesis by (intro exI [of _ 0]) auto
    next
      case True
      from Cons.IH [of "Suc n" bm1] obtain k where k: "k \<le> length xs"
        "map progress (fst (monthLoop True (Some sid) mo (enumerate (Suc n) xs) bm1))
             = map (\<lambda>i. 25 + 5 * of_nat i) [Suc n ..< Suc n + k]"
        "\<forall>bm'. snd (monthLoop True (Some sid) mo (enumerate (Suc n) xs) bm1) = Inr bm'
               \<longrightarrow> k = length xs"
        by blast
      have f: "map progress (fst ?run) =
          (20 + ((of_nat n + 1) / 12) * 60)
          # map progress (fst (monthLoop True (Some sid) mo (enumerate (Suc n) xs) bm1))"
        using Inr True assms
        by (simp add: sumOfPostings_def Let_def split_beta emitProgress_def)
      have s: "snd ?run = snd (monthLoop True (Some sid) mo (enumerate (Suc n) xs) bm1)"
        using Inr True by (simp add: sumOfPostings_def Let_def split_beta)
      have u: "[n ..< n + Suc k] = n # [Suc n ..< Suc n + k]"
        by (simp add: upt_conv_Cons)
      have v: "(20::rat) + ((of_nat n + 1) / 12) * 60 = 25 + 5 * of_nat n"
        by (simp add: field_simps)
      show ?thesis
        using k f s by (intro exI [of _ "Suc k"]) (simp only: u v, simp)
    qed
  qed
qed

lemma finishSimulation_progress:
  assumes "sid \<noteq> []"
  shows "map progress (fst (finishSimulation
            (\<lambda>month prog. emitProgress True (Some sid) month prog None None)
            inputs starting occs balances1))
         \<in> {[85], [85, 90], [85, 90, 95], [85, 90, 95, 100]}"
proof -
  let ?s = "in_fiscalStartMonth inputs"
  let ?emit = "\<lambda>month prog. emitProgress True (Some sid) month prog None None"
  have e: "map progress (?emit m p) = [p]" for m p
    using assms by (simp add: emitProgress_def)
  show ?thesis
  proof (cases "finalizeBalances balances1 ?s")
    case (Inl err)
    then show ?thesis by (simp add: finishSimulation_def e)
  next
    case b2: (Inr balances2)
    show ?thesis
    proof (cases "calculateMonthlySummaries balances2 occs ?s")
      case (Inl err)
      then show ?thesis using b2 by (simp add: finishSimulation_def Let_def e)
    next
      case tt: (Inr totals)
      show ?thesis
      proof (cases "invariantErrorsOf balances2 starting ?s totals
          (calculateOverallSummary totals)")
        case (Inl err)
        then show ?thesis using b2 tt by (simp add: finishSimulation_def Let_def e)
      next
        case (Inr errs)
        then show ?thesis
          using b2 tt by (cases errs) (simp_all add: finishSimulation_def Let_def e)
      qed
    qed
  qed
qed

lemma steps_sorted: "sorted (map (\<lambda>i. 25 + 5 * of_nat i :: rat) [n ..< n + k])"
  by (induction k) (auto simp: sorted_append)

lemma steps_bounds:
  assumes "k \<le> 12" "x \<in> set (map (\<lambda>i. 25 + 5 * of_nat i :: rat) [0 ..< k])"
  shows "25 \<le> x" "x \<le> 80"
proof -
  from assms(2) obtain i where i: "i < k" "x = 25 + 5 * of_nat i" by auto
  then have "i \<le> 11" using assms(1) by linarith
  then have "(of_nat i :: rat) \<le> 11" by (metis of_nat_le_iff of_nat_numeral)
  then show "x \<le> 80" using i by simp
  show "25 \<le> x" using i by simp
qed

lemma run_progress_sorted:
  assumes "k \<le> 12"
      and "F \<in> {[], [85], [85, 90], [85, 90, 95], [85, 90, 95, 100::rat]}"
  shows "sorted ([10, 20] @ map (\<lambda>i. 25 + 5 * of_nat i) [0 ..< k] @ F)"
proof -
  let ?L = "map (\<lambda>i. 25 + 5 * of_nat i :: rat) [0 ..< k]"
  have L: "sorted ?L" using steps_sorted [of 0 k] by simp
  have b: "\<forall>x\<in>set ?L. 25 \<le> x \<and> x \<le> 80"
    using steps_bounds [OF assms(1)] by blast
  have F: "sorted F" "\<forall>y\<in>set F. 85 \<le> y"
    using assms(2) by auto
  have LF: "sorted (?L @ F)"
    unfolding sorted_append using L F b by fastforce
  have lo: "\<forall>z\<in>set (?L @ F). 20 \<le> z"
    using b F(2) by fastforce
  show ?thesis
    using LF lo by (simp del: upt_Suc map_append) force
qed

text \<open>
  C9. In one run that is given a progress callback and a (non-empty) simulation id, the
  progress values passed to the callback, in order, are non-decreasing; when the run
  returns results, the last value passed is 100.
\<close>

theorem progress_non_decreasing:
  assumes "runSimulation inputs revs exps company (Some sid) True = (trace, outcome)"
      and "sid \<noteq> []"
  shows "sorted (map progress trace)
       \<and> (case outcome of
            Inr res \<Rightarrow> trace \<noteq> [] \<and> progress (last trace) = 100
          | Inl e \<Rightarrow> True)"
proof -
  let ?s = "in_fiscalStartMonth inputs"
  let ?occs = "expandAllPatterns revs exps company (in_year inputs)"
  let ?emit = "\<lambda>month prog. emitProgress True (Some sid) month prog None None"
  have fin: "case outcome of
            Inr res \<Rightarrow> trace \<noteq> [] \<and> progress (last trace) = 100
          | Inl e \<Rightarrow> True"
  proof (cases outcome)
    case (Inl e)
    then show ?thesis by simp
  next
    case (Inr res)
    from assms(1) [unfolded Inr] show ?thesis
    proof (rule runSimulation_returns)
      fix t3
      assume "trace = ?emit 1 10 @ ?emit 1 20 @ t3 @ ?emit 12 85 @ ?emit 12 90
          @ ?emit 12 95 @ ?emit 12 100"
      then show ?thesis
        using assms(2) Inr by (simp add: emitProgress_def)
    qed
  qed
  have srt: "sorted (map progress trace)"
  proof (cases "validateSimulationInputs inputs revs exps
      @ validateCompanyForSimulation company = []")
    case False
    then have "trace = []"
      using assms(1) run_invalid [of inputs revs exps company "Some sid" True] by simp
    then show ?thesis by simp
  next
    case True
    then have v: "validateSimulationInputs inputs revs exps = []"
      "validateCompanyForSimulation company = []"
      by simp_all
    obtain starting where st: "in_startingBalances inputs = Some starting"
      using validated_inputs(5) [OF v(1)] by blast
    obtain t3 looped where ml: "monthLoop True (Some sid)
       (\<lambda>month. filter (\<lambda>occ. getMonth (parseDate (occ_date occ)) + 1 = month) ?occs)
       (enumerate 0 (getFiscalMonthOrder ?s))
       (createInitialBalances starting ?s) = (t3, looped)"
      by fastforce
    note rv = run_valid [OF v st ml]
    have len: "length (getFiscalMonthOrder ?s) = 12"
      by (simp add: getFiscalMonthOrder_def)
    have "\<exists>k\<le>12. map progress t3 = map (\<lambda>i. 25 + 5 * of_nat i) [0 ..< k]"
      using monthLoop_progress [OF assms(2), of "getFiscalMonthOrder ?s"
          "\<lambda>month. filter (\<lambda>occ. getMonth (parseDate (occ_date occ)) + 1 = month) ?occs"
          0 "createInitialBalances starting ?s"]
      unfolding ml len by auto
    then obtain k where k: "k \<le> 12"
      "map progress t3 = map (\<lambda>i. 25 + 5 * of_nat i) [0 ..< k]"
      by blast
    have "\<exists>F \<in> {[], [85], [85, 90], [85, 90, 95], [85, 90, 95, 100::rat]}.
        map progress trace = [10, 20] @ map progress t3 @ F"
    proof (cases looped)
      case (Inl e)
      then have "trace = ?emit 1 10 @ ?emit 1 20 @ t3" using assms(1) rv by simp
      then show ?thesis using assms(2) by (simp add: emitProgress_def)
    next
      case (Inr balances1)
      then have "trace = ?emit 1 10 @ ?emit 1 20 @ t3
          @ fst (finishSimulation ?emit inputs starting ?occs balances1)"
        using assms(1) rv by simp
      then show ?thesis
        using assms(2) finishSimulation_progress [OF assms(2), of inputs starting ?occs balances1]
        by (simp add: emitProgress_def)
    qed
    then obtain F where F: "F \<in> {[], [85], [85, 90], [85, 90, 95], [85, 90, 95, 100::rat]}"
      "map progress trace = [10, 20] @ map progress t3 @ F"
      by blast
    show ?thesis
      using run_progress_sorted [OF k(1) F(1)] by (simp only: F(2) k(2))
  qed
  show ?thesis using srt fin by blast
qed

subsection \<open>What the ledger steps leave unchanged\<close>

lemma arrayGet_Some:
  "arrayGet xs i = Some x \<Longrightarrow> 0 \<le> i \<and> nat i < length xs \<and> x = xs ! nat i"
  by (auto simp: arrayGet_def split: if_splits)

lemma postToBucket_key:
  "mb_account (postToBucket occ p b) = mb_account b"
  "mb_month (postToBucket occ p b) = mb_month b"
  by (simp_all add: postToBucket_def Let_def)

lemma postToBucket_consistent:
  assumes "0 \<le> totalDebits (summary b)" "0 \<le> totalCredits (summary b)"
      and "netChange (summary b) = totalDebits (summary b) - totalCredits (summary b)"
  shows "0 \<le> totalDebits (summary (postToBucket occ p b))
       \<and> 0 \<le> totalCredits (summary (postToBucket occ p b))
       \<and> netChange (summary (postToBucket occ p b))
           = totalDebits (summary (postToBucket occ p b))
             - totalCredits (summary (postToBucket occ p b))"
  using assms by (simp add: postToBucket_def Let_def)

lemma update_same_key:
  assumes "arrayGet xs i = Some b" "f b' = f b"
  shows "map f (xs[nat i := b']) = map f xs"
proof -
  from arrayGet_Some [OF assms(1)] have "nat i < length xs" "b = xs ! nat i" by simp_all
  then have "(map f xs)[nat i := f b'] = map f xs"
    using assms(2) by (simp add: list_update_same_conv)
  then show ?thesis by (simp add: map_update)
qed

lemma update_keeps:
  assumes "\<forall>b\<in>set xs. P b" "P b'"
  shows "\<forall>b\<in>set (xs[i := b']). P b"
  using assms set_update_subset_insert [of xs i b'] by blast

lemma applyPostings_keys:
  "applyPostings occ m ps bm = Inr bm' \<Longrightarrow>
   map (\<lambda>b. (mb_account b, mb_month b)) (bm' a) = map (\<lambda>b. (mb_account b, mb_month b)) (bm a)"
proof (induction ps arbitrary: bm)
  case Nil
  then show ?case by simp
next
  case (Cons p ps)
  from Cons.prems obtain b where b: "arrayGet (bm (account p)) (m - 1) = Some b"
    by (cases "arrayGet (bm (account p)) (m - 1)") (simp_all add: Let_def)
  let ?bm = "bm(account p := (bm (account p))[nat (m - 1) := postToBucket occ p b])"
  from Cons.prems b have "applyPostings occ m ps ?bm = Inr bm'" by (simp add: Let_def)
  from Cons.IH [OF this]
  have "map (\<lambda>b. (mb_account b, mb_month b)) (bm' a) = map (\<lambda>b. (mb_account b, mb_month b)) (?bm a)" .
  also have "\<dots> = map (\<lambda>b. (mb_account b, mb_month b)) (bm a)"
    using update_same_key [OF b, of "\<lambda>b. (mb_account b, mb_month b)" "postToBucket occ p b"]
    by (simp add: postToBucket_key)
  finally show ?case .
qed

lemma applyPostings_consistent:
  assumes "\<forall>a. \<forall>b\<in>set (bm a). 0 \<le> totalDebits (summary b) \<and> 0 \<le> totalCredits (summary b)
              \<and> netChange (summary b) = totalDebits (summary b) - totalCredits (summary b)"
      and "applyPostings occ m ps bm = Inr bm'"
  shows "\<forall>a. \<forall>b\<in>set (bm' a). 0 \<le> totalDebits (summary b) \<and> 0 \<le> totalCredits (summary b)
              \<and> netChange (summary b) = totalDebits (summary b) - totalCredits (summary b)"
  using assms
proof (induction ps arbitrary: bm)
  case Nil
  then show ?case by simp
next
  case (Cons p ps)
  from Cons.prems(2) obtain b where b: "arrayGet (bm (account p)) (m - 1) = Some b"
    by (cases "arrayGet (bm (account p)) (m - 1)") (simp_all add: Let_def)
  let ?bm = "bm(account p := (bm (account p))[nat (m - 1) := postToBucket occ p b])"
  from Cons.prems(2) b have step: "applyPostings occ m ps ?bm = Inr bm'" by (simp add: Let_def)
  have "b \<in> set (bm (account p))" using arrayGet_Some [OF b] by simp
  then have "0 \<le> totalDebits (summary b) \<and> 0 \<le> totalCredits (summary b)
      \<and> netChange (summary b) = totalDebits (summary b) - totalCredits (summary b)"
    using Cons.prems(1) by blast
  then have new: "0 \<le> totalDebits (summary (postToBucket occ p b))
       \<and> 0 \<le> totalCredits (summary (postToBucket occ p b))
       \<and> netChange (summary (postToBucket occ p b))
           = totalDebits (summary (postToBucket occ p b))
             - totalCredits (summary (postToBucket occ p b))"
    using postToBucket_consistent by blast
  have "\<forall>a. \<forall>b\<in>set (?bm a). 0 \<le> totalDebits (summary b) \<and> 0 \<le> totalCredits (summary b)
              \<and> netChange (summary b) = totalDebits (summary b) - totalCredits (summary b)"
  proof
    fix a
    show "\<forall>b\<in>set (?bm a). 0 \<le> totalDebits (summary b) \<and> 0 \<le> totalCredits (summary b)
              \<and> netChange (summary b) = totalDebits (summary b) - totalCredits (summary b)"
    proof (cases "a = account p")
      case True
      then show ?thesis
        using update_keeps [OF Cons.prems(1) [THEN spec, of "account p"] new] by simp
    next
      case False
      then show ?thesis using Cons.prems(1) by simp
    qed
  qed
  from Cons.IH [OF this step] show ?case .
qed

lemma applyOccurrences_keys:
  "applyOccurrences occs bm = Inr bm' \<Longrightarrow>
   map (\<lambda>b. (mb_account b, mb_month b)) (bm' a) = map (\<lambda>b. (mb_account b, mb_month b)) (bm a)"
proof (induction occs arbitrary: bm)
  case Nil
  then show ?case by simp
next
  case (Cons occ occs)
  from Cons.prems obtain bm1 where 1: "applyOccurrenceToBalances occ bm = Inr bm1"
      and 2: "applyOccurrences occs bm1 = Inr bm'"
    by (cases "applyOccurrenceToBalances occ bm") simp_all
  show ?case
    using Cons.IH [OF 2] applyPostings_keys [OF 1 [unfolded applyOccurrenceToBalances_def], of a]
    by simp
qed

lemma applyOccurrences_consistent:
  assumes "\<forall>a. \<forall>b\<in>set (bm a). 0 \<le> totalDebits (summary b) \<and> 0 \<le> totalCredits (summary b)
              \<and> netChange (summary b) = totalDebits (summary b) - totalCredits (summary b)"
      and "applyOccurrences occs bm = Inr bm'"
  shows "\<forall>a. \<forall>b\<in>set (bm' a). 0 \<le> totalDebits (summary b) \<and> 0 \<le> totalCredits (summary b)
              \<and> netChange (summary b) = totalDebits (summary b) - totalCredits (summary b)"
  using assms
proof (induction occs arbitrary: bm)
  case Nil
  then show ?case by simp
next
  case (Cons occ occs)
  from Cons.prems(2) obtain bm1 where 1: "applyOccurrenceToBalances occ bm = Inr bm1"
      and 2: "applyOccurrences occs bm1 = Inr bm'"
    by (cases "applyOccurrenceToBalances occ bm") simp_all
  from applyPostings_consistent [OF Cons.prems(1) 1 [unfolded applyOccurrenceToBalances_def]]
  show ?case using Cons.IH [OF _ 2] by blast
qed

lemma monthLoop_step:
  assumes "snd (monthLoop cb sid mo ((i, x) # rest) bm) = Inr bm'"
  obtains bm1 where "applyOccurrences (mo x) bm = Inr bm1"
    "snd (monthLoop cb sid mo rest bm1) = Inr bm'"
proof (cases "applyOccurrences (mo x) bm")
  case (Inl e)
  then show ?thesis using assms by simp
next
  case (Inr bm1)
  then have "snd (monthLoop cb sid mo rest bm1) = Inr bm'"
    using assms by (simp add: Let_def split_beta split: sum.splits)
  then show ?thesis using that Inr by blast
qed



lemma rollForward_frame:
  "rollForward previous months xs = Inr ys \<Longrightarrow>
   map (\<lambda>b. (mb_account b, mb_month b, summary b)) ys
     = map (\<lambda>b. (mb_account b, mb_month b, summary b)) xs"
proof (induction months arbitrary: previous xs)
  case Nil
  then show ?case by simp
next
  case (Cons month months)
  from Cons.prems obtain b where b: "arrayGet xs (month - 1) = Some b"
    by (cases "arrayGet xs (month - 1)") simp_all
  show ?case
  proof (cases previous)
    case None
    let ?xs = "xs[nat (month - 1) := b\<lparr>closingBalance :=
                     openingBalance b + netChange (summary b)\<rparr>]"
    from Cons.prems b None have "rollForward (Some month) months ?xs = Inr ys" by simp
    from Cons.IH [OF this] show ?thesis
      using update_same_key [OF b, of "\<lambda>b. (mb_account b, mb_month b, summary b)"
          "b\<lparr>closingBalance := openingBalance b + netChange (summary b)\<rparr>"]
      by simp
  next
    case (Some pm)
    from Cons.prems b Some obtain pb where pb: "arrayGet xs (pm - 1) = Some pb"
      by (cases "arrayGet xs (pm - 1)") simp_all
    let ?xs = "xs[nat (month - 1) := b\<lparr>openingBalance := closingBalance pb,
                 closingBalance := closingBalance pb + netChange (summary b)\<rparr>]"
    from Cons.prems b Some pb have "rollForward (Some month) months ?xs = Inr ys" by simp
    from Cons.IH [OF this] show ?thesis
      using update_same_key [OF b, of "\<lambda>b. (mb_account b, mb_month b, summary b)"
          "b\<lparr>openingBalance := closingBalance pb,
                 closingBalance := closingBalance pb + netChange (summary b)\<rparr>"]
      by simp
  qed
qed

lemma finalizeAccounts_frame:
  "finalizeAccounts accts months bm = Inr bm' \<Longrightarrow>
   map (\<lambda>b. (mb_account b, mb_month b, summary b)) (bm' a)
     = map (\<lambda>b. (mb_account b, mb_month b, summary b)) (bm a)"
proof (induction accts arbitrary: bm)
  case Nil
  then show ?case by simp
next
  case (Cons acct accts)
  from Cons.prems obtain ys where ys: "rollForward None months (bm acct) = Inr ys"
      and rest: "finalizeAccounts accts months (bm(acct := ys)) = Inr bm'"
    by (cases "rollForward None months (bm acct)") simp_all
  show ?case
    using Cons.IH [OF rest] rollForward_frame [OF ys] by (cases "a = acct") simp_all
qed

lemma frame_keys:
  assumes "map (\<lambda>b. (mb_account b, mb_month b, summary b)) ys
     = map (\<lambda>b. (mb_account b, mb_month b, summary b)) xs"
  shows "map (\<lambda>b. (mb_account b, mb_month b)) ys = map (\<lambda>b. (mb_account b, mb_month b)) xs"
    "map summary ys = map summary xs"
proof -
  have "map ((\<lambda>(a, m, s). (a, m)) \<circ> (\<lambda>b. (mb_account b, mb_month b, summary b))) ys
      = map ((\<lambda>(a, m, s). (a, m)) \<circ> (\<lambda>b. (mb_account b, mb_month b, summary b))) xs"
    using arg_cong [OF assms, of "map (\<lambda>(a, m, s). (a, m))"] by simp
  then show "map (\<lambda>b. (mb_account b, mb_month b)) ys = map (\<lambda>b. (mb_account b, mb_month b)) xs"
    by (simp add: comp_def)
  have "map ((\<lambda>(a, m, s). s) \<circ> (\<lambda>b. (mb_account b, mb_month b, summary b))) ys
      = map ((\<lambda>(a, m, s). s) \<circ> (\<lambda>b. (mb_account b, mb_month b, summary b))) xs"
    using arg_cong [OF assms, of "map (\<lambda>(a, m, s). s)"] by simp
  then show "map summary ys = map summary xs"
    by (simp add: comp_def)
qed

lemma createInitialBalances_keys:
  "map (\<lambda>b. (mb_account b, mb_month b)) (createInitialBalances starting s a) = map (Pair a) [1 .. 12]"
  by (simp add: createInitialBalances_def comp_def)

lemma createInitialBalances_consistent:
  "\<forall>a. \<forall>b\<in>set (createInitialBalances starting s a).
     0 \<le> totalDebits (summary b) \<and> 0 \<le> totalCredits (summary b)
     \<and> netChange (summary b) = totalDebits (summary b) - totalCredits (summary b)"
  by (auto simp: createInitialBalances_def zeroSummary_def)


subsection \<open>Runs evaluated\<close>

lemma empty_run_returns:
  "\<exists>trace res. runSimulation pureRevenueInputs [] [] (createTestCompany 1) (Some ''sim-1'') True
     = (trace, Inr res)"
proof -
  have "case snd (runSimulation pureRevenueInputs [] [] (createTestCompany 1) (Some ''sim-1'') True)
    of Inr res \<Rightarrow> True | Inl e \<Rightarrow> False"
    by code_simp
  then show ?thesis
    by (cases "runSimulation pureRevenueInputs [] [] (createTestCompany 1) (Some ''sim-1'') True")
       (auto split: sum.splits)
qed

lemma empty_run_april_returns:
  "\<exists>trace res. runSimulation (pureRevenueInputs\<lparr>in_fiscalStartMonth := 4\<rparr>) [] []
     (createTestCompany 1) (Some ''sim-1'') True = (trace, Inr res)"
proof -
  have "case snd (runSimulation (pureRevenueInputs\<lparr>in_fiscalStartMonth := 4\<rparr>) [] []
      (createTestCompany 1) (Some ''sim-1'') True)
    of Inr res \<Rightarrow> True | Inl e \<Rightarrow> False"
    by code_simp
  then show ?thesis
    by (cases "runSimulation (pureRevenueInputs\<lparr>in_fiscalStartMonth := 4\<rparr>) [] []
      (createTestCompany 1) (Some ''sim-1'') True")
       (auto split: sum.splits)
qed

text \<open>
  The ledger functions alone, on the occurrences of the pure-revenue scenario: net revenue
  170000, final operating balance 171000, VAT collected 34000, and no invariant error.
\<close>

lemma pure_revenue_ledger_totals:
  "(let occs = expandAllPatterns [monthlyServiceRevenue, quarterlyConsultingRevenue] []
                 (createTestCompany 1) 2024;
        starting = (\<lambda>acct. case acct of Operating \<Rightarrow> 1000 | Savings \<Rightarrow> 5000
                       | Personal \<Rightarrow> 0 | Vat \<Rightarrow> 0)
    in case applyOccurrences occs (createInitialBalances starting 1) of
         Inl e \<Rightarrow> False
       | Inr balances1 \<Rightarrow>
          (case finalizeBalances balances1 1 of
             Inl e \<Rightarrow> False
           | Inr balances2 \<Rightarrow>
              (case calculateMonthlySummaries balances2 occs 1 of
                 Inl e \<Rightarrow> False
               | Inr totals \<Rightarrow>
                   rv_net (totalRevenue (calculateOverallSummary totals)) = 170000
                   \<and> finalAccountBalances (calculateOverallSummary totals) Operating = 171000
                   \<and> totalVatCollected (calculateOverallSummary totals) = 34000
                   \<and> invariantErrorsOf balances2 starting 1 totals
                        (calculateOverallSummary totals) = Inr [])))"
  by code_simp

text \<open>
  C2. On the pure-revenue scenario of the integration tests the run does not return
  results: it fails with the TypeError of the month loop's progress figures, raised for
  the first month that has an occurrence.
\<close>

theorem pure_revenue_run_fails:
  "snd (runSimulation pureRevenueInputs [monthlyServiceRevenue, quarterlyConsultingRevenue] []
     (createTestCompany 1) None False)
   = Inl (SimulationFailed
       (TypeError ''Cannot read properties of undefined (reading reduce)''))"
proof -
  have "case snd (runSimulation pureRevenueInputs
      [monthlyServiceRevenue, quarterlyConsultingRevenue] [] (createTestCompany 1) None False) of
       Inl (SimulationFailed (TypeError msg)) \<Rightarrow>
         msg = ''Cannot read properties of undefined (reading reduce)''
     | _ \<Rightarrow> False"
    by code_simp
  then show ?thesis
    by (auto split: sum.splits error.splits failure.splits)
qed

theorem progress_non_decreasing_witness:
  "''sim-1'' \<noteq> []
   \<and> sorted (map progress (fst (runSimulation pureRevenueInputs [] [] (createTestCompany 1)
        (Some ''sim-1'') True)))
   \<and> (\<exists>res. snd (runSimulation pureRevenueInputs [] [] (createTestCompany 1)
        (Some ''sim-1'') True) = Inr res)
   \<and> progress (last (fst (runSimulation pureRevenueInputs [] [] (createTestCompany 1)
        (Some ''sim-1'') True))) = 100"
proof -
  obtain trace res where r: "runSimulation pureRevenueInputs [] [] (createTestCompany 1)
      (Some ''sim-1'') True = (trace, Inr res)"
    using empty_run_returns by blast
  have n: "''sim-1'' \<noteq> []" by simp
  show ?thesis
    using progress_non_decreasing [OF r n] by (simp add: r)
qed

subsection \<open>The buckets of returned results\<close>

lemma accounts_all: "a \<in> set accounts"
  by (cases a) (simp_all add: accounts_def)









subsection \<open>Conservation in returned results\<close>







subsection \<open>Totals do not depend on the fiscal start month\<close>

lemma fiscal_orders:
  "getFiscalMonthOrder 1 = [1, 2, 3, 4, 5, 6, 7, 8, 9, 10, 11, 12]"
  "getFiscalMonthOrder 2 = [2, 3, 4, 5, 6, 7, 8, 9, 10, 11, 12, 1]"
  "getFiscalMonthOrder 3 = [3, 4, 5, 6, 7, 8, 9, 10, 11, 12, 1, 2]"
  "getFiscalMonthOrder 4 = [4, 5, 6, 7, 8, 9, 10, 11, 12, 1, 2, 3]"
  "getFiscalMonthOrder 5 = [5, 6, 7, 8, 9, 10, 11, 12, 1, 2, 3, 4]"
  "getFiscalMonthOrder 6 = [6, 7, 8, 9, 10, 11, 12, 1, 2, 3, 4, 5]"
  "getFiscalMonthOrder 7 = [7, 8, 9, 10, 11, 12, 1, 2, 3, 4, 5, 6]"
  "getFiscalMonthOrder 8 = [8, 9, 10, 11, 12, 1, 2, 3, 4, 5, 6, 7]"
  "getFiscalMonthOrder 9 = [9, 10, 11, 12, 1, 2, 3, 4, 5, 6, 7, 8]"
  "getFiscalMonthOrder 10 = [10, 11, 12, 1, 2, 3, 4, 5, 6, 7, 8, 9]"
  "getFiscalMonthOrder 11 = [11, 12, 1, 2, 3, 4, 5, 6, 7, 8, 9, 10]"
  "getFiscalMonthOrder 12 = [12, 1, 2, 3, 4, 5, 6, 7, 8, 9, 10, 11]"
  by code_simp+

lemma fiscal_order_sum:
  fixes f :: "int \<Rightarrow> rat"
  assumes "1 \<le> s" "s \<le> 12"
  shows "sum_list (map f (getFiscalMonthOrder s)) = sum_list (map f (getFiscalMonthOrder 1))"
proof -
  from assms have "s = 1 \<or> s = 2 \<or> s = 3 \<or> s = 4 \<or> s = 5 \<or> s = 6 \<or> s = 7 \<or> s = 8
      \<or> s = 9 \<or> s = 10 \<or> s = 11 \<or> s = 12"
    by presburger
  then show ?thesis
    by (elim disjE) (simp_all add: fiscal_orders)
qed

lemma monthSummaries_fields:
  assumes "monthSummaries bm occs months = Inr ss"
  shows "map (\<lambda>m. rv_net (revenue m)) ss =
           map (\<lambda>month. foldl (\<lambda>sum occ. sum + netAmount occ) 0
                 (filter (\<lambda>occ. occ_type occ = Revenue)
                    (filter (\<lambda>occ. isoMonth (occ_date occ) = month) occs))) months"
    and "map (\<lambda>m. ex_net (expenses m)) ss =
           map (\<lambda>month. foldl (\<lambda>sum occ. sum + netAmount occ) 0
                 (filter (\<lambda>occ. occ_type occ = Expense)
                    (filter (\<lambda>occ. isoMonth (occ_date occ) = month) occs))) months"
    and "map (\<lambda>m. rv_vat (revenue m)) ss =
           map (\<lambda>month. foldl (\<lambda>sum occ. sum + vatAmount occ) 0
                 (filter (\<lambda>occ. occ_type occ = Revenue)
                    (filter (\<lambda>occ. isoMonth (occ_date occ) = month) occs))) months"
  using assms
proof (induction months arbitrary: ss)
  case Nil
  {
    case 1 then show ?case by simp
  next
    case 2 then show ?case by simp
  next
    case 3 then show ?case by simp
  }
next
  case (Cons month months)
  {
    case 1
    then obtain s ss' where s: "monthSummary bm occs month = Inr s"
        and r: "monthSummaries bm occs months = Inr ss'" and e: "ss = s # ss'"
      by (auto split: sum.splits)
    have "rv_net (revenue s) = foldl (\<lambda>sum occ. sum + netAmount occ) 0
                 (filter (\<lambda>occ. occ_type occ = Revenue)
                    (filter (\<lambda>occ. isoMonth (occ_date occ) = month) occs))"
      using s by (auto simp: monthSummary_def Let_def split: option.splits)
    then show ?case using Cons.IH(1) [OF r] e by simp
  next
    case 2
    then obtain s ss' where s: "monthSummary bm occs month = Inr s"
        and r: "monthSummaries bm occs months = Inr ss'" and e: "ss = s # ss'"
      by (auto split: sum.splits)
    have "ex_net (expenses s) = foldl (\<lambda>sum occ. sum + netAmount occ) 0
                 (filter (\<lambda>occ. occ_type occ = Expense)
                    (filter (\<lambda>occ. isoMonth (occ_date occ) = month) occs))"
      using s by (auto simp: monthSummary_def Let_def split: option.splits)
    then show ?case using Cons.IH(2) [OF r] e by simp
  next
    case 3
    then obtain s ss' where s: "monthSummary bm occs month = Inr s"
        and r: "monthSummaries bm occs months = Inr ss'" and e: "ss = s # ss'"
      by (auto split: sum.splits)
    have "rv_vat (revenue s) = foldl (\<lambda>sum occ. sum + vatAmount occ) 0
                 (filter (\<lambda>occ. occ_type occ = Revenue)
                    (filter (\<lambda>occ. isoMonth (occ_date occ) = month) occs))"
      using s by (auto simp: monthSummary_def Let_def split: option.splits)
    then show ?case using Cons.IH(3) [OF r] e by simp
  }
qed

lemma foldl_addTotals:
  "rv_net (fst (foldl addTotals acc ss))
     = rv_net (fst acc) + sum_list (map (\<lambda>m. rv_net (revenue m)) ss)"
  "ex_net (snd (foldl addTotals acc ss))
     = ex_net (snd acc) + sum_list (map (\<lambda>m. ex_net (expenses m)) ss)"
  "rv_vat (fst (foldl addTotals acc ss))
     = rv_vat (fst acc) + sum_list (map (\<lambda>m. rv_vat (revenue m)) ss)"
  by (induction ss arbitrary: acc) (simp_all add: addTotals_def add.assoc)

lemma overall_totals:
  "netProfit (calculateOverallSummary ss)
     = sum_list (map (\<lambda>m. rv_net (revenue m)) ss) - sum_list (map (\<lambda>m. ex_net (expenses m)) ss)"
  "totalVatCollected (calculateOverallSummary ss) = sum_list (map (\<lambda>m. rv_vat (revenue m)) ss)"
  by (simp_all add: calculateOverallSummary_def Let_def foldl_addTotals)

lemma summaries_independent_of_start:
  assumes "1 \<le> s" "s \<le> 12"
      and "calculateMonthlySummaries balances occs s = Inr totals"
      and "calculateMonthlySummaries balances' occs 1 = Inr totals'"
  shows "netProfit (calculateOverallSummary totals) = netProfit (calculateOverallSummary totals')"
    and "totalVatCollected (calculateOverallSummary totals)
       = totalVatCollected (calculateOverallSummary totals')"
proof -
  note a = monthSummaries_fields [OF assms(3) [unfolded calculateMonthlySummaries_def]]
  note b = monthSummaries_fields [OF assms(4) [unfolded calculateMonthlySummaries_def]]
  show "netProfit (calculateOverallSummary totals) = netProfit (calculateOverallSummary totals')"
    unfolding overall_totals a b
    using fiscal_order_sum [OF assms(1,2)] by simp
  show "totalVatCollected (calculateOverallSummary totals)
       = totalVatCollected (calculateOverallSummary totals')"
    unfolding overall_totals a b
    using fiscal_order_sum [OF assms(1,2)] by simp
qed

text \<open>
  C8. On the patterns of the pure-revenue scenario, a valid input, neither the run with
  fiscal start month 4 nor the run with fiscal start month 1 yields overall totals: both
  fail with the TypeError of the month loop's progress figures, in the first month of
  their fiscal order, which has an occurrence.
\<close>

theorem fiscal_start_runs_fail:
  "snd (runSimulation (pureRevenueInputs\<lparr>in_fiscalStartMonth := 4\<rparr>)
          [monthlyServiceRevenue, quarterlyConsultingRevenue] [] (createTestCompany 1) None False)
     = Inl (SimulationFailed
         (TypeError ''Cannot read properties of undefined (reading reduce)''))
   \<and> snd (runSimulation (pureRevenueInputs\<lparr>in_fiscalStartMonth := 1\<rparr>)
          [monthlyServiceRevenue, quarterlyConsultingRevenue] [] (createTestCompany 1) None False)
     = Inl (SimulationFailed
         (TypeError ''Cannot read properties of undefined (reading reduce)''))"
proof -
  have "case snd (runSimulation (pureRevenueInputs\<lparr>in_fiscalStartMonth := 4\<rparr>)
      [monthlyServiceRevenue, quarterlyConsultingRevenue] [] (createTestCompany 1) None False) of
       Inl (SimulationFailed (TypeError msg)) \<Rightarrow>
         msg = ''Cannot read properties of undefined (reading reduce)''
     | _ \<Rightarrow> False"
    by code_simp
  moreover have "case snd (runSimulation (pureRevenueInputs\<lparr>in_fiscalStartMonth := 1\<rparr>)
      [monthlyServiceRevenue, quarterlyConsultingRevenue] [] (createTestCompany 1) None False) of
       Inl (SimulationFailed (TypeError msg)) \<Rightarrow>
         msg = ''Cannot read properties of undefined (reading reduce)''
     | _ \<Rightarrow> False"
    by code_simp
  ultimately show ?thesis
    by (auto split: sum.splits error.splits failure.splits)
qed

subsection \<open>The ledger functions on any list of occurrences\<close>

text \<open>
  Independently of the run and of its invariant checks: whenever the occurrences can be
  applied to the seeded ledger and the roll-forward is done, every summary is consistent
  and, for a fiscal start month in 1..12, the closing balance of the last fiscal month is
  exactly the starting balance plus the sum of \<open>netChange\<close> over the twelve buckets.
\<close>

lemma applyPostings_unchanged:
  assumes "\<And>p b. f (postToBucket occ p b) = f b"
      and "applyPostings occ m ps bm = Inr bm'"
  shows "map f (bm' a) = map f (bm a)"
  using assms(2)
proof (induction ps arbitrary: bm)
  case Nil
  then show ?case by simp
next
  case (Cons p ps)
  from Cons.prems obtain b where b: "arrayGet (bm (account p)) (m - 1) = Some b"
    by (cases "arrayGet (bm (account p)) (m - 1)") (simp_all add: Let_def)
  let ?bm = "bm(account p := (bm (account p))[nat (m - 1) := postToBucket occ p b])"
  from Cons.prems b have "applyPostings occ m ps ?bm = Inr bm'" by (simp add: Let_def)
  from Cons.IH [OF this] have "map f (bm' a) = map f (?bm a)" .
  also have "\<dots> = map f (bm a)"
    using update_same_key [OF b, of f "postToBucket occ p b"] by (simp add: assms(1))
  finally show ?case .
qed

lemma applyOccurrences_opening:
  "applyOccurrences occs bm = Inr bm' \<Longrightarrow> map openingBalance (bm' a) = map openingBalance (bm a)"
proof (induction occs arbitrary: bm)
  case Nil
  then show ?case by simp
next
  case (Cons occ occs)
  from Cons.prems obtain bm1 where 1: "applyOccurrenceToBalances occ bm = Inr bm1"
      and 2: "applyOccurrences occs bm1 = Inr bm'"
    by (cases "applyOccurrenceToBalances occ bm") simp_all
  have "map openingBalance (bm1 a) = map openingBalance (bm a)"
    using 1 [unfolded applyOccurrenceToBalances_def]
    by (rule applyPostings_unchanged [rotated]) (simp add: postToBucket_def Let_def)
  then show ?case using Cons.IH [OF 2] by simp
qed

lemma rollForward_closing:
  assumes "rollForward (Some pm) months xs = Inr ys"
      and "distinct (pm # months)"
      and "\<forall>m\<in>set (pm # months). 1 \<le> m \<and> m \<le> int (length xs)"
  shows "closingBalance (ys ! nat (last (pm # months) - 1))
           = closingBalance (xs ! nat (pm - 1))
             + sum_list (map (\<lambda>m. netChange (summary (xs ! nat (m - 1)))) months)"
  using assms
proof (induction months arbitrary: pm xs)
  case Nil
  then show ?case by simp
next
  case (Cons m months)
  have rng: "1 \<le> m" "m \<le> int (length xs)" "1 \<le> pm" "pm \<le> int (length xs)"
    using Cons.prems(3) by simp_all
  then have b: "arrayGet xs (m - 1) = Some (xs ! nat (m - 1))"
    and pb: "arrayGet xs (pm - 1) = Some (xs ! nat (pm - 1))"
    by (simp_all add: arrayGet_def)
  let ?b = "xs ! nat (m - 1)" and ?pb = "xs ! nat (pm - 1)"
  let ?xs = "xs[nat (m - 1) := ?b\<lparr>openingBalance := closingBalance ?pb,
                 closingBalance := closingBalance ?pb + netChange (summary ?b)\<rparr>]"
  from Cons.prems(1) b pb have step: "rollForward (Some m) months ?xs = Inr ys" by simp
  have d: "distinct (m # months)" using Cons.prems(2) by simp
  have r: "\<forall>k\<in>set (m # months). 1 \<le> k \<and> k \<le> int (length ?xs)"
    using Cons.prems(3) by simp
  have here: "closingBalance (?xs ! nat (m - 1)) = closingBalance ?pb + netChange (summary ?b)"
    using rng by simp
  have other: "map (\<lambda>k. netChange (summary (?xs ! nat (k - 1)))) months
      = map (\<lambda>k. netChange (summary (xs ! nat (k - 1)))) months"
  proof (rule map_cong [OF refl])
    fix k assume k: "k \<in> set months"
    then have "k \<noteq> m" using Cons.prems(2) by auto
    moreover have "1 \<le> k" using Cons.prems(3) k by simp
    ultimately have "nat (k - 1) \<noteq> nat (m - 1)" using rng by linarith
    then show "netChange (summary (?xs ! nat (k - 1))) = netChange (summary (xs ! nat (k - 1)))"
      by simp
  qed
  from Cons.IH [OF step d r]
  have "closingBalance (ys ! nat (last (m # months) - 1))
      = closingBalance (?xs ! nat (m - 1))
        + sum_list (map (\<lambda>k. netChange (summary (?xs ! nat (k - 1)))) months)" .
  then show ?case
    unfolding here other by (simp add: add.assoc)
qed

lemma rollForward_conserves:
  assumes "rollForward None (m0 # months) xs = Inr ys"
      and "distinct (m0 # months)"
      and "\<forall>m\<in>set (m0 # months). 1 \<le> m \<and> m \<le> int (length xs)"
  shows "closingBalance (ys ! nat (last (m0 # months) - 1))
           = openingBalance (xs ! nat (m0 - 1))
             + sum_list (map (\<lambda>m. netChange (summary (xs ! nat (m - 1)))) (m0 # months))"
proof -
  have rng: "1 \<le> m0" "m0 \<le> int (length xs)" using assms(3) by simp_all
  then have b: "arrayGet xs (m0 - 1) = Some (xs ! nat (m0 - 1))"
    by (simp add: arrayGet_def)
  let ?b = "xs ! nat (m0 - 1)"
  let ?xs = "xs[nat (m0 - 1) := ?b\<lparr>closingBalance :=
                 openingBalance ?b + netChange (summary ?b)\<rparr>]"
  from assms(1) b have step: "rollForward (Some m0) months ?xs = Inr ys" by simp
  have r: "\<forall>k\<in>set (m0 # months). 1 \<le> k \<and> k \<le> int (length ?xs)"
    using assms(3) by simp
  have here: "closingBalance (?xs ! nat (m0 - 1)) = openingBalance ?b + netChange (summary ?b)"
    using rng by simp
  have other: "map (\<lambda>k. netChange (summary (?xs ! nat (k - 1)))) months
      = map (\<lambda>k. netChange (summary (xs ! nat (k - 1)))) months"
  proof (rule map_cong [OF refl])
    fix k assume k: "k \<in> set months"
    then have "k \<noteq> m0" using assms(2) by auto
    moreover have "1 \<le> k" using assms(3) k by simp
    ultimately have "nat (k - 1) \<noteq> nat (m0 - 1)" using rng by linarith
    then show "netChange (summary (?xs ! nat (k - 1))) = netChange (summary (xs ! nat (k - 1)))"
      by simp
  qed
  from rollForward_closing [OF step assms(2) r]
  show ?thesis unfolding here other by (simp add: add.assoc)
qed

lemma finalizeAccounts_other:
  "finalizeAccounts accts months bm = Inr bm' \<Longrightarrow> a \<notin> set accts \<Longrightarrow> bm' a = bm a"
proof (induction accts arbitrary: bm)
  case Nil
  then show ?case by auto
next
  case (Cons acct accts)
  from Cons.prems(1) obtain ys where
      rest: "finalizeAccounts accts months (bm(acct := ys)) = Inr bm'"
    by (cases "rollForward None months (bm acct)") simp_all
  from Cons.IH [OF rest] Cons.prems(2) show ?case by simp
qed

lemma finalizeAccounts_each:
  assumes "finalizeAccounts accts months bm = Inr bm'" "distinct accts" "a \<in> set accts"
  shows "rollForward None months (bm a) = Inr (bm' a)"
  using assms
proof (induction accts arbitrary: bm)
  case Nil
  then show ?case by simp
next
  case (Cons acct accts)
  from Cons.prems(1) obtain ys where ys: "rollForward None months (bm acct) = Inr ys"
      and rest: "finalizeAccounts accts months (bm(acct := ys)) = Inr bm'"
    by (cases "rollForward None months (bm acct)") simp_all
  show ?case
  proof (cases "a = acct")
    case True
    have "acct \<notin> set accts" using Cons.prems(2) by simp
    from finalizeAccounts_other [OF rest this] have "bm' acct = ys" by simp
    then show ?thesis using ys True by simp
  next
    case False
    then show ?thesis using Cons.IH [OF rest] Cons.prems(2,3) by simp
  qed
qed

lemma months_as_indices:
  assumes "length xs = 12"
  shows "map (\<lambda>m. g (xs ! nat (m - 1))) (getFiscalMonthOrder 1) = map g xs"
proof -
  have h: "map (\<lambda>m. nat (m - 1)) (getFiscalMonthOrder 1) = [0 ..< 12]"
    by (simp add: fiscal_orders upt_conv_Cons)
  have "map (\<lambda>m. g (xs ! nat (m - 1))) (getFiscalMonthOrder 1)
      = map (\<lambda>i. g (xs ! i)) (map (\<lambda>m. nat (m - 1)) (getFiscalMonthOrder 1))"
    by (simp only: map_map comp_def)
  also have "\<dots> = map (\<lambda>i. g (xs ! i)) [0 ..< length xs]"
    unfolding h assms ..
  also have "\<dots> = map g (map (nth xs) [0 ..< length xs])" by simp
  also have "\<dots> = map g xs" by (simp only: map_nth)
  finally show ?thesis .
qed

lemma fiscal_order_facts:
  assumes "1 \<le> s" "s \<le> 12"
  shows "\<exists>rest. getFiscalMonthOrder s = s # rest"
    and "distinct (getFiscalMonthOrder s)"
    and "\<forall>m\<in>set (getFiscalMonthOrder s). 1 \<le> m \<and> m \<le> 12"
proof -
  from assms have c: "s = 1 \<or> s = 2 \<or> s = 3 \<or> s = 4 \<or> s = 5 \<or> s = 6 \<or> s = 7 \<or> s = 8
      \<or> s = 9 \<or> s = 10 \<or> s = 11 \<or> s = 12"
    by presburger
  from c show "\<exists>rest. getFiscalMonthOrder s = s # rest"
    by (elim disjE) (simp_all add: fiscal_orders)
  from c show "distinct (getFiscalMonthOrder s)"
    by (elim disjE) (simp_all add: fiscal_orders)
  from c show "\<forall>m\<in>set (getFiscalMonthOrder s). 1 \<le> m \<and> m \<le> 12"
    by (elim disjE) (simp_all add: fiscal_orders)
qed

lemma ledger_conservation:
  assumes "1 \<le> s" "s \<le> 12"
      and "applyOccurrences occs (createInitialBalances starting s) = Inr balances1"
      and "finalizeBalances balances1 s = Inr balances2"
  shows "closingBalance (balances2 a ! nat (last (getFiscalMonthOrder s) - 1))
           = starting a + sum_list (map (\<lambda>b. netChange (summary b)) (balances2 a))"
proof -
  let ?order = "getFiscalMonthOrder s"
  obtain rest where ord: "?order = s # rest"
    using fiscal_order_facts(1) [OF assms(1,2)] by blast
  have keys1: "map (\<lambda>b. (mb_account b, mb_month b)) (balances1 a) = map (Pair a) [1 .. 12]"
    using applyOccurrences_keys [OF assms(3), of a] createInitialBalances_keys [of starting s a]
    by simp
  have len1: "length (balances1 a) = 12"
    using arg_cong [OF keys1, of length] by simp
  have "distinct accounts" by (simp add: accounts_def)
  from finalizeAccounts_each [OF assms(4) [unfolded finalizeBalances_def] this accounts_all]
  have rf: "rollForward None (s # rest) (balances1 a) = Inr (balances2 a)"
    unfolding ord .
  have d: "distinct (s # rest)" using fiscal_order_facts(2) [OF assms(1,2)] unfolding ord .
  have r: "\<forall>m\<in>set (s # rest). 1 \<le> m \<and> m \<le> int (length (balances1 a))"
    using fiscal_order_facts(3) [OF assms(1,2)] unfolding ord len1 by simp
  have open1: "map openingBalance (balances1 a)
      = map openingBalance (createInitialBalances starting s a)"
    using applyOccurrences_opening [OF assms(3)] .
  have "openingBalance (balances1 a ! nat (s - 1))
      = map openingBalance (balances1 a) ! nat (s - 1)"
    using assms(1,2) len1 by simp
  also have "\<dots> = map openingBalance (createInitialBalances starting s a) ! nat (s - 1)"
    unfolding open1 ..
  also have "\<dots> = starting a"
  proof -
    have "nat (s - 1) < length [1 .. 12::int]" using assms(1,2) by simp
    moreover have "[1 .. 12] ! nat (s - 1) = s" using assms(1,2) by simp
    ultimately show ?thesis by (simp add: createInitialBalances_def)
  qed
  finally have op: "openingBalance (balances1 a ! nat (s - 1)) = starting a" .
  have "sum_list (map (\<lambda>m. netChange (summary (balances1 a ! nat (m - 1)))) (s # rest))
      = sum_list (map (\<lambda>m. netChange (summary (balances1 a ! nat (m - 1))))
          (getFiscalMonthOrder 1))"
    using fiscal_order_sum [OF assms(1,2)] unfolding ord .
  also have "\<dots> = sum_list (map (\<lambda>b. netChange (summary b)) (balances1 a))"
    using months_as_indices [OF len1, of "\<lambda>b. netChange (summary b)"] by simp
  also have "\<dots> = sum_list (map (\<lambda>b. netChange (summary b)) (balances2 a))"
  proof -
    have "map summary (balances2 a) = map summary (balances1 a)"
      using frame_keys(2) [OF rollForward_frame [OF rf]] .
    then have "map (netChange \<circ> summary) (balances2 a) = map (netChange \<circ> summary) (balances1 a)"
      by (metis map_map)
    then show ?thesis by (simp add: comp_def)
  qed
  finally have sm: "sum_list (map (\<lambda>m. netChange (summary (balances1 a ! nat (m - 1)))) (s # rest))
      = sum_list (map (\<lambda>b. netChange (summary b)) (balances2 a))" .
  from rollForward_conserves [OF rf d r] show ?thesis
    unfolding op sm by (simp only: ord)
qed

lemma ledger_summaries_consistent:
  assumes "applyOccurrences occs (createInitialBalances starting s) = Inr balances1"
      and "finalizeBalances balances1 s = Inr balances2"
  shows "\<forall>b\<in>set (balances2 a). 0 \<le> totalDebits (summary b) \<and> 0 \<le> totalCredits (summary b)
              \<and> netChange (summary b) = totalDebits (summary b) - totalCredits (summary b)"
proof -
  have c1: "\<forall>b\<in>set (balances1 a). 0 \<le> totalDebits (summary b) \<and> 0 \<le> totalCredits (summary b)
              \<and> netChange (summary b) = totalDebits (summary b) - totalCredits (summary b)"
    using applyOccurrences_consistent [OF createInitialBalances_consistent assms(1)] by blast
  note fr = finalizeAccounts_frame [OF assms(2) [unfolded finalizeBalances_def], of a]
  have "set (map summary (balances2 a)) = set (map summary (balances1 a))"
    using frame_keys(2) [OF fr] by simp
  then have eq: "summary ` set (balances2 a) = summary ` set (balances1 a)" by simp
  show ?thesis
  proof
    fix b assume "b \<in> set (balances2 a)"
    then have "summary b \<in> summary ` set (balances1 a)" using eq by blast
    then obtain b1 where b1: "b1 \<in> set (balances1 a)" "summary b = summary b1" by blast
    show "0 \<le> totalDebits (summary b) \<and> 0 \<le> totalCredits (summary b)
              \<and> netChange (summary b) = totalDebits (summary b) - totalCredits (summary b)"
      using c1 b1(1) unfolding b1(2) by blast
  qed
qed

subsection \<open>When a run returns\<close>

text \<open>
  The month loop completes only if no month of the fiscal order has an occurrence: the
  progress figures of a month fail on the first occurrence they meet. So a run returns
  results only when no occurrence falls in the twelve months.
\<close>

lemma monthLoop_returns_empty_months:
  "snd (monthLoop cb sid mo xs bm) = Inr bm' \<Longrightarrow> (i, x) \<in> set xs \<Longrightarrow> mo x = []"
proof (induction xs arbitrary: bm)
  case Nil
  then show ?case by simp
next
  case (Cons jy xs)
  obtain j y where jy: "jy = (j, y)" by (cases jy)
  from Cons.prems(1) [unfolded jy] show ?case
  proof (rule monthLoop_step)
    fix bm1
    assume 1: "applyOccurrences (mo y) bm = Inr bm1"
      and 2: "snd (monthLoop cb sid mo xs bm1) = Inr bm'"
    have here: "mo y = []"
    proof (rule ccontr)
      assume ne: "mo y \<noteq> []"
      then have "filter (\<lambda>occ. occ_type occ = Revenue) (mo y) \<noteq> []
          \<or> filter (\<lambda>occ. occ_type occ = Expense) (mo y) \<noteq> []"
        by (cases "mo y") (auto intro: occType.exhaust)
      then have "\<exists>e. snd (monthLoop cb sid mo ((j, y) # xs) bm) = Inl e"
        using 1 by (auto simp: sumOfPostings_def Let_def)
      then show False using Cons.prems(1) jy by simp
    qed
    show ?thesis
    proof (cases "(i, x) = (j, y)")
      case True
      then show ?thesis using here by simp
    next
      case False
      then have "(i, x) \<in> set xs" using Cons.prems(2) jy by auto
      from Cons.IH [OF 2 this] show ?thesis .
    qed
  qed
qed

lemma returned_run_has_no_occurrence:
  assumes "runSimulation inputs revs exps company sid cb = (trace, Inr res)"
      and "occ \<in> set (expandAllPatterns revs exps company (in_year inputs))"
  shows "isoMonth (occ_date occ) \<notin> set (getFiscalMonthOrder (in_fiscalStartMonth inputs))"
  using assms(1)
proof (rule runSimulation_returns)
  fix starting t3 balances1
  let ?mo = "\<lambda>month. filter (\<lambda>occ. getMonth (parseDate (occ_date occ)) + 1 = month)
          (expandAllPatterns revs exps company (in_year inputs))"
  let ?order = "getFiscalMonthOrder (in_fiscalStartMonth inputs)"
  assume ml: "monthLoop cb sid ?mo (enumerate 0 ?order)
       (createInitialBalances starting (in_fiscalStartMonth inputs)) = (t3, Inr balances1)"
  show ?thesis
  proof
    assume "isoMonth (occ_date occ) \<in> set ?order"
    then obtain n where n: "n < length ?order" "?order ! n = isoMonth (occ_date occ)"
      by (auto simp: in_set_conv_nth)
    then have "(n, isoMonth (occ_date occ)) \<in> set (enumerate 0 ?order)"
      by (simp add: in_set_enumerate_eq)
    moreover have "snd (monthLoop cb sid ?mo (enumerate 0 ?order)
       (createInitialBalances starting (in_fiscalStartMonth inputs))) = Inr balances1"
      using ml by simp
    ultimately have "?mo (isoMonth (occ_date occ)) = []"
      by (rule monthLoop_returns_empty_months [rotated])
    then show False using assms(2) by (auto simp: filter_empty_conv parseDate_def)
  qed
qed

end
